theory Spec2Isabelle
  imports Main
begin

section \<open>JavaScript values used by the ledger\<close>

text \<open>
  The ledger engine of the playground is written in TypeScript (\<^verbatim>\<open>transaction.ts\<close>,
  \<^verbatim>\<open>block.ts\<close>, \<^verbatim>\<open>miner.ts\<close>, \<^verbatim>\<open>blockchain.ts\<close>). Every \<^verbatim>\<open>throw\<close> of the source
  is a value of \<open>error\<close>; a function that can throw returns \<open>error + 'a\<close> with \<open>Inl\<close> for
  the exception. \<^verbatim>\<open>RangeError\<close> and \<^verbatim>\<open>TypeError\<close> are the two exceptions of the
  JavaScript runtime that the code can reach (\<^verbatim>\<open>'0'.repeat(n)\<close> with negative \<open>n\<close>, and
  \<^verbatim>\<open>undefined.hash\<close> on an empty chain); \<open>Error\<close> is the plain \<^verbatim>\<open>new Error(...)\<close>.

  A JavaScript \<^verbatim>\<open>number\<close> is modelled by the integer it holds: amounts, timestamps,
  indices, nonces, difficulty and reward are \<open>int\<close> (fractions, \<^verbatim>\<open>NaN\<close> and
  \<^verbatim>\<open>Infinity\<close> are outside the model, and an integer that no double holds is not a
  value of the code). The sums and differences of amounts that the code computes are
  rounded as doubles are (\<open>Number_add\<close>, \<open>Number_sub\<close> below); the counters \<open>nonce\<close>
  and \<open>attempts\<close> are incremented exactly, as they are below \<open>2 ^ 53\<close>. Every call of
  \<^verbatim>\<open>Date.now()\<close> is an explicit argument \<open>now\<close> of the function that makes it.
\<close>

datatype error =
    InvalidBlockError
  | InsufficientBalanceError
  | InvalidAmountError
  | RangeError
  | TypeError
  | Error

text \<open>
  \<^verbatim>\<open>n.toString()\<close> for an integer \<open>n\<close>: decimal digits, with a minus sign. This is what
  JavaScript prints for the integers of magnitude up to \<open>2 ^ 53\<close>; beyond them it prints
  the shortest digits that read back as the same double, and an exponent from
  \<open>10 ^ 21\<close> on. The strings below are only ever passed to the digest \<open>H\<close>.
\<close>

fun showNat :: "nat \<Rightarrow> string" where
  "showNat n =
     (if n < 10 then [char_of (48 + n)]
      else showNat (n div 10) @ [char_of (48 + n mod 10)])"

definition Number_toString :: "int \<Rightarrow> string" where
  "Number_toString n =
     (if n < 0 then CHR ''-'' # showNat (nat (- n)) else showNat (nat n))"

text \<open>
  The sum and the difference of two numbers, as \<^verbatim>\<open>+\<close> and \<^verbatim>\<open>-\<close> compute them on doubles:
  the exact result rounded to the nearest double, ties to the even significand. An
  integer of at most 53 bits is a double; a longer one is rounded at the bit that its
  length puts in 53rd place. (Results of magnitude \<open>2 ^ 1024\<close> and more, which are
  \<^verbatim>\<open>Infinity\<close>, are outside the model.)
\<close>

function bitLength :: "int \<Rightarrow> nat" where
  "bitLength n = (if n \<le> 0 then 0 else Suc (bitLength (n div 2)))"
  by pat_completeness auto
termination
  by (relation "measure nat") auto

declare bitLength.simps [simp del]

definition roundToDouble :: "int \<Rightarrow> int" where
  "roundToDouble n =
     (let a = \<bar>n\<bar>;
          e = bitLength a - 53;
          q = a div 2 ^ e;
          r = a mod 2 ^ e;
          half = 2 ^ e div 2;
          m = (if e = 0 then a
               else if r < half \<or> (r = half \<and> even q) then q
               else q + 1)
      in sgn n * (m * 2 ^ e))"

definition Number_add :: "int \<Rightarrow> int \<Rightarrow> int" where
  "Number_add a b = roundToDouble (a + b)"

definition Number_sub :: "int \<Rightarrow> int \<Rightarrow> int" where
  "Number_sub a b = roundToDouble (a - b)"

text \<open>\<^verbatim>\<open>s.startsWith(t)\<close> and \<^verbatim>\<open>s.repeat(n)\<close>; the latter throws on a negative count.\<close>

definition startsWith :: "string \<Rightarrow> string \<Rightarrow> bool" where
  "startsWith s t = (take (length t) s = t)"

definition String_repeat :: "string \<Rightarrow> int \<Rightarrow> error + string" where
  "String_repeat s n =
     (if n < 0 then Inl RangeError else Inr (concat (replicate (nat n) s)))"

text \<open>
  Values of type \<^verbatim>\<open>unknown\<close> (what \<^verbatim>\<open>JSON.parse\<close> returns and \<^verbatim>\<open>fromJSON\<close> receives).
  An object is the list of its members; a property read takes the first member of that
  name, and a missing property reads as \<^verbatim>\<open>undefined\<close>, here \<open>None\<close>.
\<close>

datatype json =
    JNull
  | JBool bool
  | JNum int
  | JStr string
  | JArr "json list"
  | JObj "(string \<times> json) list"

fun isObject :: "json \<Rightarrow> bool" where
  "isObject (JArr xs) = True"
| "isObject (JObj kvs) = True"
| "isObject j = False"

fun getProp :: "json \<Rightarrow> string \<Rightarrow> json option" where
  "getProp (JObj kvs) k = map_of kvs k"
| "getProp j k = None"

fun asNumber :: "json option \<Rightarrow> int option" where
  "asNumber (Some (JNum n)) = Some n"
| "asNumber v = None"

fun asString :: "json option \<Rightarrow> string option" where
  "asString (Some (JStr s)) = Some s"
| "asString v = None"

fun asArray :: "json option \<Rightarrow> json list option" where
  "asArray (Some (JArr xs)) = Some xs"
| "asArray v = None"

text \<open>
  \<^verbatim>\<open>JSON.stringify\<close>: strings are quoted with the escapes of the standard, array
  elements and object members are joined by commas, no white space.
\<close>

definition hexDigit :: "nat \<Rightarrow> char" where
  "hexDigit n = (if n < 10 then char_of (48 + n) else char_of (87 + n))"

definition JSON_escape :: "char \<Rightarrow> string" where
  "JSON_escape c =
     (if c = CHR 0x22 then [CHR 0x5C, CHR 0x22]
      else if c = CHR 0x5C then [CHR 0x5C, CHR 0x5C]
      else if c = CHR 0x08 then [CHR 0x5C, CHR ''b'']
      else if c = CHR 0x09 then [CHR 0x5C, CHR ''t'']
      else if c = CHR 0x0A then [CHR 0x5C, CHR ''n'']
      else if c = CHR 0x0C then [CHR 0x5C, CHR ''f'']
      else if c = CHR 0x0D then [CHR 0x5C, CHR ''r'']
      else if (of_char c :: nat) < 32
        then [CHR 0x5C, CHR ''u'', CHR ''0'', CHR ''0'',
              hexDigit ((of_char c :: nat) div 16), hexDigit ((of_char c :: nat) mod 16)]
      else [c])"

definition JSON_quote :: "string \<Rightarrow> string" where
  "JSON_quote s = CHR 0x22 # concat (map JSON_escape s) @ [CHR 0x22]"

fun join :: "string \<Rightarrow> string list \<Rightarrow> string" where
  "join sep [] = []"
| "join sep [x] = x"
| "join sep (x # y # ys) = x @ sep @ join sep (y # ys)"

fun JSON_stringify :: "json \<Rightarrow> string"
  and stringify_elems :: "json list \<Rightarrow> string list"
  and stringify_members :: "(string \<times> json) list \<Rightarrow> string list" where
  "JSON_stringify JNull = ''null''"
| "JSON_stringify (JBool b) = (if b then ''true'' else ''false'')"
| "JSON_stringify (JNum n) = Number_toString n"
| "JSON_stringify (JStr s) = JSON_quote s"
| "JSON_stringify (JArr xs) = ''['' @ join '','' (stringify_elems xs) @ '']''"
| "JSON_stringify (JObj kvs) = ''{'' @ join '','' (stringify_members kvs) @ ''}''"
| "stringify_elems [] = []"
| "stringify_elems (x # xs) = JSON_stringify x # stringify_elems xs"
| "stringify_members [] = []"
| "stringify_members ((k, v) # kvs) =
     (JSON_quote k @ '':'' @ JSON_stringify v) # stringify_members kvs"

section \<open>Transaction\<close>

record Transaction =
  sender :: string
  recipient :: string
  amount :: int
  timestamp :: int
  signature :: "string option"

text \<open>The constructor: \<^verbatim>\<open>amount <= 0\<close> throws, the time stamp is \<^verbatim>\<open>Date.now()\<close>.\<close>

definition Transaction_new :: "string \<Rightarrow> string \<Rightarrow> int \<Rightarrow> int \<Rightarrow> error + Transaction" where
  "Transaction_new s r a now =
     (if a \<le> 0 then Inl InvalidAmountError
      else Inr \<lparr>sender = s, recipient = r, amount = a, timestamp = now, signature = None\<rparr>)"

text \<open>
  \<^verbatim>\<open>CryptoJS.SHA256(data).toString()\<close> is a library function: it is the parameter \<open>H\<close>
  of everything that hashes.
\<close>

definition Transaction_calculateHash :: "(string \<Rightarrow> string) \<Rightarrow> Transaction \<Rightarrow> string" where
  "Transaction_calculateHash H t =
     H (sender t @ recipient t @ Number_toString (amount t)
        @ Number_toString (Transaction.timestamp t))"

text \<open>
  \<^verbatim>\<open>ec.keyFromPublic(publicKey, 'hex').verify(data, signature)\<close> of the elliptic library
  is the parameter \<open>V\<close>: \<open>V publicKey data signature\<close> is \<open>None\<close> when the library throws
  and \<open>Some b\<close> when it answers \<open>b\<close>. \<^verbatim>\<open>Wallet.verify\<close> wraps it in a \<^verbatim>\<open>try\<close> whose
  \<^verbatim>\<open>catch\<close> returns false.
\<close>

definition Wallet_verify ::
  "(string \<Rightarrow> string \<Rightarrow> string \<Rightarrow> bool option) \<Rightarrow> string \<Rightarrow> string \<Rightarrow> string \<Rightarrow> bool" where
  "Wallet_verify V publicKey data sg =
     (case V publicKey data sg of None \<Rightarrow> False | Some b \<Rightarrow> b)"

text \<open>
  \<^verbatim>\<open>isValid\<close>. The test \<^verbatim>\<open>!this.signature\<close> holds for \<^verbatim>\<open>undefined\<close> and for the empty
  string.
\<close>

definition isValid ::
  "(string \<Rightarrow> string) \<Rightarrow> (string \<Rightarrow> string \<Rightarrow> string \<Rightarrow> bool option) \<Rightarrow> Transaction \<Rightarrow> bool" where
  "isValid H V t =
     (if sender t = '''' \<or> sender t = ''MINING_REWARD'' then True
      else (case signature t of
              None \<Rightarrow> False
            | Some sg \<Rightarrow>
                if sg = '''' then False
                else (case V (sender t) (Transaction_calculateHash H t) sg of
                        None \<Rightarrow> False
                      | Some b \<Rightarrow> b)))"

definition createMiningReward :: "string \<Rightarrow> int \<Rightarrow> int \<Rightarrow> error + Transaction" where
  "createMiningReward minerAddress reward now =
     Transaction_new ''MINING_REWARD'' minerAddress reward now"

text \<open>
  \<^verbatim>\<open>toJSON\<close> of a transaction, as \<^verbatim>\<open>JSON.stringify\<close> sees it: a member whose value is
  \<^verbatim>\<open>undefined\<close> (an unsigned transaction's signature) is left out.
\<close>

definition Transaction_toJSON :: "Transaction \<Rightarrow> json" where
  "Transaction_toJSON t =
     JObj ([(''sender'', JStr (sender t)),
            (''recipient'', JStr (recipient t)),
            (''amount'', JNum (amount t)),
            (''timestamp'', JNum (Transaction.timestamp t))]
           @ (case signature t of None \<Rightarrow> [] | Some sg \<Rightarrow> [(''signature'', JStr sg)]))"

section \<open>Block\<close>

text \<open>
  What \<^verbatim>\<open>Miner.mine\<close> returns. The field \<^verbatim>\<open>timeMs\<close>, a difference of two readings of
  the wall clock, is not part of the model.
\<close>

record MiningResult =
  nonce :: int
  hash :: string
  attempts :: nat

text \<open>
  A block. Its transactions are typed \<^verbatim>\<open>ITransaction[]\<close>, an interface: the elements
  are \<^verbatim>\<open>Transaction\<close> instances in a ledger built in memory and unchecked parsed
  values in a block that \<^verbatim>\<open>fromJSON\<close> rebuilt (\<^verbatim>\<open>data.transactions as ITransaction[]\<close>).
  The record is therefore polymorphic in the element type, and the functions that
  serialise the list take the element's JSON view \<open>toJ\<close>: \<open>Transaction_toJSON\<close> for
  instances, the identity for parsed values.
\<close>

record 't Block =
  index :: int
  timestamp :: int
  transactions :: "'t list"
  previousHash :: string
  nonce :: int
  hash :: string

definition Block_calculateHash ::
  "(string \<Rightarrow> string) \<Rightarrow> ('t \<Rightarrow> json) \<Rightarrow> 't Block \<Rightarrow> string" where
  "Block_calculateHash H toJ b =
     H (Number_toString (index b)
        @ previousHash b
        @ Number_toString (timestamp b)
        @ JSON_stringify (JArr (map toJ (transactions b)))
        @ Number_toString (nonce b))"

text \<open>The constructor stores the digest of the other five fields.\<close>

definition Block_new ::
  "(string \<Rightarrow> string) \<Rightarrow> ('t \<Rightarrow> json) \<Rightarrow> int \<Rightarrow> int \<Rightarrow> 't list \<Rightarrow> string \<Rightarrow> int \<Rightarrow> 't Block" where
  "Block_new H toJ i ts txs prev n =
     (let b = \<lparr>index = i, timestamp = ts, transactions = txs, previousHash = prev,
               nonce = n, hash = []\<rparr>
      in b\<lparr>hash := Block_calculateHash H toJ b\<rparr>)"

text \<open>
  \<^verbatim>\<open>toJSON\<close> of a block, as the value that \<^verbatim>\<open>JSON.parse\<close> reads back from the text
  that \<^verbatim>\<open>JSON.stringify\<close> writes.
\<close>

definition Block_toJSON :: "('t \<Rightarrow> json) \<Rightarrow> 't Block \<Rightarrow> json" where
  "Block_toJSON toJ b =
     JObj [(''index'', JNum (index b)),
           (''timestamp'', JNum (timestamp b)),
           (''transactions'', JArr (map toJ (transactions b))),
           (''previousHash'', JStr (previousHash b)),
           (''nonce'', JNum (nonce b)),
           (''hash'', JStr (hash b))]"

text \<open>
  \<^verbatim>\<open>Block.fromJSON\<close>: the shape of the six fields is checked, the elements of
  \<^verbatim>\<open>transactions\<close> are not; the stored hash must be the recomputed one.
\<close>

definition Block_fromJSON :: "(string \<Rightarrow> string) \<Rightarrow> json \<Rightarrow> error + json Block" where
  "Block_fromJSON H j =
     (if \<not> isObject j then Inl InvalidBlockError
      else
        (case asNumber (getProp j ''index'') of None \<Rightarrow> Inl InvalidBlockError | Some i \<Rightarrow>
        (case asNumber (getProp j ''timestamp'') of None \<Rightarrow> Inl InvalidBlockError | Some ts \<Rightarrow>
        (case asArray (getProp j ''transactions'') of None \<Rightarrow> Inl InvalidBlockError | Some txs \<Rightarrow>
        (case asString (getProp j ''previousHash'') of None \<Rightarrow> Inl InvalidBlockError | Some prev \<Rightarrow>
        (case asNumber (getProp j ''nonce'') of None \<Rightarrow> Inl InvalidBlockError | Some n \<Rightarrow>
        (case asString (getProp j ''hash'') of None \<Rightarrow> Inl InvalidBlockError | Some h \<Rightarrow>
           (let block = Block_new H id i ts txs prev n
            in if hash block \<noteq> h then Inl InvalidBlockError else Inr block))))))))"

section \<open>Miner\<close>

text \<open>
  The \<^verbatim>\<open>while (true)\<close> loop of \<^verbatim>\<open>mine\<close>. It has no bound, so it is a partial function:
  \<open>None\<close> is a search that never ends. \<open>n\<close> is the counter \<^verbatim>\<open>attempts\<close> on entry to the
  loop body.
\<close>

partial_function (option) mine_loop ::
  "(string \<Rightarrow> string) \<Rightarrow> ('t \<Rightarrow> json) \<Rightarrow> string \<Rightarrow> nat \<Rightarrow> 't Block
     \<Rightarrow> (MiningResult \<times> 't Block) option" where
  "mine_loop H toJ target n block =
     (let h = Block_calculateHash H toJ block in
      if startsWith h target
      then Some (\<lparr>MiningResult.nonce = nonce block, MiningResult.hash = h, attempts = n + 1\<rparr>,
                 block\<lparr>hash := h\<rparr>)
      else mine_loop H toJ target (n + 1) (block\<lparr>nonce := nonce block + 1\<rparr>))"

declare mine_loop.simps [code]

text \<open>\<^verbatim>\<open>new Miner(difficulty).mine(block)\<close>: the result and the block as mutated.\<close>

definition Miner_mine ::
  "(string \<Rightarrow> string) \<Rightarrow> ('t \<Rightarrow> json) \<Rightarrow> int \<Rightarrow> 't Block
     \<Rightarrow> (error + MiningResult \<times> 't Block) option" where
  "Miner_mine H toJ d block =
     (case String_repeat ''0'' d of
        Inl e \<Rightarrow> Some (Inl e)
      | Inr target \<Rightarrow> map_option Inr (mine_loop H toJ target 0 block))"

definition isValidHash :: "int \<Rightarrow> string \<Rightarrow> error + bool" where
  "isValidHash d h =
     (case String_repeat ''0'' d of
        Inl e \<Rightarrow> Inl e
      | Inr target \<Rightarrow> Inr (startsWith h target))"

section \<open>Blockchain\<close>

record 't Blockchain =
  chain :: "'t Block list"
  pendingTransactions :: "'t list"
  difficulty :: int
  miningReward :: int

definition createGenesisBlock ::
  "(string \<Rightarrow> string) \<Rightarrow> ('t \<Rightarrow> json) \<Rightarrow> int \<Rightarrow> int \<Rightarrow> (error + 't Block) option" where
  "createGenesisBlock H toJ d now =
     (case Miner_mine H toJ d (Block_new H toJ 0 now [] ''0'' 0) of
        None \<Rightarrow> None
      | Some (Inl e) \<Rightarrow> Some (Inl e)
      | Some (Inr (res, genesisBlock)) \<Rightarrow> Some (Inr genesisBlock))"

text \<open>The constructor \<^verbatim>\<open>new Blockchain(difficulty, miningReward)\<close>.\<close>

definition Blockchain_new ::
  "(string \<Rightarrow> string) \<Rightarrow> ('t \<Rightarrow> json) \<Rightarrow> int \<Rightarrow> int \<Rightarrow> int \<Rightarrow> (error + 't Blockchain) option" where
  "Blockchain_new H toJ d r now =
     (case createGenesisBlock H toJ d now of
        None \<Rightarrow> None
      | Some (Inl e) \<Rightarrow> Some (Inl e)
      | Some (Inr g) \<Rightarrow>
          Some (Inr \<lparr>chain = [g], pendingTransactions = [], difficulty = d, miningReward = r\<rparr>))"

text \<open>\<^verbatim>\<open>this.chain[this.chain.length - 1]\<close>: \<^verbatim>\<open>undefined\<close> on an empty chain.\<close>

definition getLatestBlock :: "'t Blockchain \<Rightarrow> 't Block option" where
  "getLatestBlock bc = (if chain bc = [] then None else Some (last (chain bc)))"

text \<open>
  The two nested \<^verbatim>\<open>for\<close> loops of \<^verbatim>\<open>getBalanceOfAddress\<close>, as folds; \<^verbatim>\<open>balance -= tx.amount\<close>
  and \<^verbatim>\<open>balance += tx.amount\<close> are operations on doubles.
\<close>

definition balance_tx :: "string \<Rightarrow> Transaction \<Rightarrow> int \<Rightarrow> int" where
  "balance_tx address tx balance =
     (let balance1 = (if sender tx = address then Number_sub balance (amount tx) else balance)
      in if recipient tx = address then Number_add balance1 (amount tx) else balance1)"

definition getBalanceOfAddress :: "Transaction Blockchain \<Rightarrow> string \<Rightarrow> int" where
  "getBalanceOfAddress bc address =
     fold (\<lambda>block balance. fold (balance_tx address) (transactions block) balance) (chain bc) 0"

text \<open>
  \<^verbatim>\<open>addTransaction\<close> returns its answer (or the exception) together with the ledger
  as it leaves it.
\<close>

definition addTransaction ::
  "(string \<Rightarrow> string) \<Rightarrow> (string \<Rightarrow> string \<Rightarrow> string \<Rightarrow> bool option)
     \<Rightarrow> Transaction Blockchain \<Rightarrow> Transaction \<Rightarrow> (error + bool) \<times> Transaction Blockchain" where
  "addTransaction H V bc transaction =
     (if sender transaction \<noteq> ''MINING_REWARD'' then
        (if \<not> isValid H V transaction then (Inr False, bc)
         else if getBalanceOfAddress bc (sender transaction) < amount transaction
           then (Inl InsufficientBalanceError, bc)
         else (Inr True,
               bc\<lparr>pendingTransactions := pendingTransactions bc @ [transaction]\<rparr>))
      else (Inr True,
            bc\<lparr>pendingTransactions := pendingTransactions bc @ [transaction]\<rparr>))"

text \<open>
  \<^verbatim>\<open>minePendingTransactions\<close>; \<open>now1\<close> is the clock read by the reward transaction's
  constructor and \<open>now2\<close> the one read for the block. The reward transaction is pushed
  before anything else can throw.
\<close>

definition minePendingTransactions ::
  "(string \<Rightarrow> string) \<Rightarrow> Transaction Blockchain \<Rightarrow> string \<Rightarrow> int \<Rightarrow> int
     \<Rightarrow> ((error + Transaction Block) \<times> Transaction Blockchain) option" where
  "minePendingTransactions H bc minerAddress now1 now2 =
     (case createMiningReward minerAddress (miningReward bc) now1 of
        Inl e \<Rightarrow> Some (Inl e, bc)
      | Inr rewardTx \<Rightarrow>
          (let bc1 = bc\<lparr>pendingTransactions := pendingTransactions bc @ [rewardTx]\<rparr> in
           case getLatestBlock bc1 of
             None \<Rightarrow> Some (Inl TypeError, bc1)
           | Some latest \<Rightarrow>
               (let block = Block_new H Transaction_toJSON (int (length (chain bc1))) now2
                              (pendingTransactions bc1) (hash latest) 0
                in case Miner_mine H Transaction_toJSON (difficulty bc1) block of
                     None \<Rightarrow> None
                   | Some (Inl e) \<Rightarrow> Some (Inl e, bc1)
                   | Some (Inr (res, mined)) \<Rightarrow>
                       Some (Inr mined,
                             bc1\<lparr>chain := chain bc1 @ [mined], pendingTransactions := []\<rparr>))))"

text \<open>The \<^verbatim>\<open>for (let i = 1; i < this.chain.length; i++)\<close> loop of \<^verbatim>\<open>isChainValid\<close>.\<close>

function validate_loop ::
  "(string \<Rightarrow> string) \<Rightarrow> ('t \<Rightarrow> json) \<Rightarrow> string \<Rightarrow> 't Block list \<Rightarrow> nat \<Rightarrow> bool" where
  "validate_loop H toJ target ch i =
     (if i < length ch then
        (let currentBlock = ch ! i; previousBlock = ch ! (i - 1) in
         if hash currentBlock \<noteq> Block_calculateHash H toJ currentBlock then False
         else if previousHash currentBlock \<noteq> hash previousBlock then False
         else if \<not> startsWith (hash currentBlock) target then False
         else validate_loop H toJ target ch (i + 1))
      else True)"
  by pat_completeness auto
termination
  by (relation "measure (\<lambda>(H, toJ, target, ch, i). length ch - i)") auto

definition isChainValid ::
  "(string \<Rightarrow> string) \<Rightarrow> ('t \<Rightarrow> json) \<Rightarrow> 't Blockchain \<Rightarrow> error + bool" where
  "isChainValid H toJ bc =
     (case String_repeat ''0'' (difficulty bc) of
        Inl e \<Rightarrow> Inl e
      | Inr target \<Rightarrow> Inr (validate_loop H toJ target (chain bc) 1))"

declare validate_loop.simps [simp del]

text \<open>\<^verbatim>\<open>toJSON\<close> of the ledger, in the same reading.\<close>

definition Blockchain_toJSON :: "('t \<Rightarrow> json) \<Rightarrow> 't Blockchain \<Rightarrow> json" where
  "Blockchain_toJSON toJ bc =
     JObj [(''chain'', JArr (map (Block_toJSON toJ) (chain bc))),
           (''pendingTransactions'', JArr (map toJ (pendingTransactions bc))),
           (''difficulty'', JNum (difficulty bc)),
           (''miningReward'', JNum (miningReward bc))]"

text \<open>
  \<^verbatim>\<open>Blockchain.fromJSON\<close>. \<^verbatim>\<open>data.chain.map(Block.fromJSON)\<close> stops at the first block
  that throws; the pending transactions are taken as they are.
\<close>

fun map_result :: "('a \<Rightarrow> error + 'b) \<Rightarrow> 'a list \<Rightarrow> error + 'b list" where
  "map_result f [] = Inr []"
| "map_result f (x # xs) =
     (case f x of
        Inl e \<Rightarrow> Inl e
      | Inr y \<Rightarrow> (case map_result f xs of Inl e \<Rightarrow> Inl e | Inr ys \<Rightarrow> Inr (y # ys)))"

definition Blockchain_fromJSON ::
  "(string \<Rightarrow> string) \<Rightarrow> json \<Rightarrow> int \<Rightarrow> (error + json Blockchain) option" where
  "Blockchain_fromJSON H j now =
     (if \<not> isObject j then Some (Inl Error)
      else
        (case asArray (getProp j ''chain'') of None \<Rightarrow> Some (Inl Error) | Some cs \<Rightarrow>
        (case asArray (getProp j ''pendingTransactions'') of None \<Rightarrow> Some (Inl Error) | Some ps \<Rightarrow>
        (case asNumber (getProp j ''difficulty'') of None \<Rightarrow> Some (Inl Error) | Some d \<Rightarrow>
        (case asNumber (getProp j ''miningReward'') of None \<Rightarrow> Some (Inl Error) | Some r \<Rightarrow>
           (case Blockchain_new H id d r now of
              None \<Rightarrow> None
            | Some (Inl e) \<Rightarrow> Some (Inl e)
            | Some (Inr blockchain) \<Rightarrow>
                (case map_result (Block_fromJSON H) cs of
                   Inl e \<Rightarrow> Some (Inl e)
                 | Inr blocks \<Rightarrow>
                     Some (Inr (blockchain\<lparr>chain := blocks, pendingTransactions := ps\<rparr>)))))))))"

section \<open>The ledger invariant and the reachable ledgers\<close>

text \<open>
  The invariant the specification states for a ledger: a non-empty chain whose first
  block has previous hash \<open>''0''\<close> and no transactions, every later block linked to its
  predecessor and its hash starting with \<open>difficulty\<close> zero characters.
\<close>

definition ledger_invariant :: "'t Blockchain \<Rightarrow> bool" where
  "ledger_invariant bc =
     (chain bc \<noteq> []
      \<and> previousHash (chain bc ! 0) = ''0''
      \<and> transactions (chain bc ! 0) = []
      \<and> (\<forall>i \<in> {1 ..< length (chain bc)}.
            previousHash (chain bc ! i) = hash (chain bc ! (i - 1))
            \<and> startsWith (hash (chain bc ! i)) (replicate (nat (difficulty bc)) CHR ''0'')))"

text \<open>
  The ledgers that the constructor and any finite sequence of \<^verbatim>\<open>addTransaction\<close> and
  \<^verbatim>\<open>minePendingTransactions\<close> calls that return (or throw) can produce.
\<close>

inductive reachable ::
  "(string \<Rightarrow> string) \<Rightarrow> (string \<Rightarrow> string \<Rightarrow> string \<Rightarrow> bool option)
     \<Rightarrow> Transaction Blockchain \<Rightarrow> bool"
  for H V where
    constructed:
      "Blockchain_new H Transaction_toJSON d r now = Some (Inr bc) \<Longrightarrow> reachable H V bc"
  | added:
      "reachable H V bc \<Longrightarrow> addTransaction H V bc t = (res, bc') \<Longrightarrow> reachable H V bc'"
  | mined:
      "reachable H V bc \<Longrightarrow> minePendingTransactions H bc minerAddress now1 now2 = Some (res, bc')
         \<Longrightarrow> reachable H V bc'"

text \<open>
  The sum of the absolute amounts of the transactions of a list that an address sends
  or receives: a bound on every value that its balance takes along the list.
\<close>

definition volume :: "string \<Rightarrow> Transaction list \<Rightarrow> int" where
  "volume a txs =
     sum_list (map (\<lambda>tx. \<bar>amount tx\<bar>) (filter (\<lambda>tx. sender tx = a \<or> recipient tx = a) txs))"

section \<open>Serialized blocks and corrupted blocks\<close>

text \<open>
  The block that a serialized block stores, read field by field: defined when the value
  is an object whose \<open>index\<close>, \<open>timestamp\<close> and \<open>nonce\<close> are numbers, whose
  \<open>previousHash\<close> and \<open>hash\<close> are strings and whose \<open>transactions\<close> is an array. This is
  the reading that the specification's field-wise equality of a reloaded ledger refers
  to; it is compared with \<open>Block_fromJSON\<close> below.
\<close>

definition storedBlock :: "json \<Rightarrow> json Block option" where
  "storedBlock c =
     (if \<not> isObject c then None
      else
        Option.bind (asNumber (getProp c ''index'')) (\<lambda>i.
        Option.bind (asNumber (getProp c ''timestamp'')) (\<lambda>ts.
        Option.bind (asArray (getProp c ''transactions'')) (\<lambda>txs.
        Option.bind (asString (getProp c ''previousHash'')) (\<lambda>prev.
        Option.bind (asNumber (getProp c ''nonce'')) (\<lambda>n.
        Option.bind (asString (getProp c ''hash'')) (\<lambda>h.
          Some \<lparr>index = i, timestamp = ts, transactions = txs, previousHash = prev,
                nonce = n, hash = h\<rparr>)))))))"

text \<open>A change of one stored field of a block (the fields are public and mutable).\<close>

datatype 't field_change =
    SetIndex int
  | SetTimestamp int
  | SetTransactions "'t list"
  | SetPreviousHash string
  | SetNonce int
  | SetHash string

fun tamper :: "'t field_change \<Rightarrow> 't Block \<Rightarrow> 't Block" where
  "tamper (SetIndex v) b = b\<lparr>index := v\<rparr>"
| "tamper (SetTimestamp v) b = b\<lparr>timestamp := v\<rparr>"
| "tamper (SetTransactions v) b = b\<lparr>transactions := v\<rparr>"
| "tamper (SetPreviousHash v) b = b\<lparr>previousHash := v\<rparr>"
| "tamper (SetNonce v) b = b\<lparr>nonce := v\<rparr>"
| "tamper (SetHash v) b = b\<lparr>hash := v\<rparr>"

fun isHashChange :: "'t field_change \<Rightarrow> bool" where
  "isHashChange (SetHash v) = True"
| "isHashChange f = False"

text \<open>
  What a reload makes of a block and of a ledger held in memory: the transactions become
  the plain objects that \<^verbatim>\<open>JSON.parse\<close> returns.
\<close>

definition jsonBlock :: "Transaction Block \<Rightarrow> json Block" where
  "jsonBlock b =
     \<lparr>index = index b, timestamp = timestamp b,
        transactions = map Transaction_toJSON (transactions b),
        previousHash = previousHash b, nonce = nonce b, hash = hash b\<rparr>"

definition jsonLedger :: "Transaction Blockchain \<Rightarrow> json Blockchain" where
  "jsonLedger bc =
     \<lparr>chain = map jsonBlock (chain bc),
        pendingTransactions = map Transaction_toJSON (pendingTransactions bc),
        difficulty = difficulty bc, miningReward = miningReward bc\<rparr>"

section \<open>Sample inputs\<close>

text \<open>
  A digest and a signature check to run the model on. The sample digest is the length
  of the string in decimal digits, after two zero characters when the string ends in
  \<open>2\<close>, so that a search at difficulty 2 ends at nonce 2. The sample check accepts for the
  key \<open>k\<close> the signature \<open>sig:k\<close> and throws on the key \<open>bad\<close>.
\<close>

definition sampleHash :: "string \<Rightarrow> string" where
  "sampleHash s =
     (if s \<noteq> [] \<and> last s = CHR ''2'' then ''00'' else ''f'')
       @ showNat (length s)"

definition sampleVerify :: "string \<Rightarrow> string \<Rightarrow> string \<Rightarrow> bool option" where
  "sampleVerify publicKey data sg =
     (if publicKey = ''bad'' then None else Some (sg = ''sig:'' @ publicKey))"

text \<open>
  The ledger \<^verbatim>\<open>new Blockchain(2, 100)\<close> built at time 5 with the sample digest, and the
  same ledger after \<^verbatim>\<open>minePendingTransactions('alice')\<close> at times 11 and 12.
\<close>

definition sampleGenesisBlock :: "Transaction Block" where
  "sampleGenesisBlock =
     \<lparr>index = 0, timestamp = 5, transactions = [], previousHash = ''0'',
        nonce = 2, hash = ''006''\<rparr>"

definition sampleBlock1 :: "Transaction Block" where
  "sampleBlock1 =
     \<lparr>index = 1, timestamp = 12,
        transactions = [\<lparr>sender = ''MINING_REWARD'', recipient = ''alice'', amount = 100,
                          timestamp = 11, signature = None\<rparr>],
        previousHash = ''006'', nonce = 2, hash = ''0083''\<rparr>"

definition sampleNew :: "Transaction Blockchain" where
  "sampleNew =
     \<lparr>chain = [sampleGenesisBlock], pendingTransactions = [], difficulty = 2,
        miningReward = 100\<rparr>"

definition sampleLedger :: "Transaction Blockchain" where
  "sampleLedger =
     \<lparr>chain = [sampleGenesisBlock, sampleBlock1], pendingTransactions = [], difficulty = 2,
        miningReward = 100\<rparr>"

text \<open>A signed transfer of \<open>n\<close> coins from alice to bob, created at time 20.\<close>

definition aliceToBob :: "int \<Rightarrow> Transaction" where
  "aliceToBob n =
     \<lparr>sender = ''alice'', recipient = ''bob'', amount = n, timestamp = 20,
        signature = Some ''sig:alice''\<rparr>"

text \<open>
  A transaction with the reward sender made by a caller, and the sample ledger after
  \<^verbatim>\<open>addTransaction\<close> of it on the new ledger and \<^verbatim>\<open>minePendingTransactions('alice')\<close>
  at times 31 and 32.
\<close>

definition malloryReward :: Transaction where
  "malloryReward =
     \<lparr>sender = ''MINING_REWARD'', recipient = ''mallory'', amount = 900, timestamp = 30,
        signature = None\<rparr>"

definition sampleMinted :: "Transaction Blockchain" where
  "sampleMinted =
     \<lparr>chain = [sampleGenesisBlock,
               \<lparr>index = 1, timestamp = 32,
                  transactions = [malloryReward,
                                  \<lparr>sender = ''MINING_REWARD'', recipient = ''alice'',
                                     amount = 100, timestamp = 31, signature = None\<rparr>],
                  previousHash = ''006'', nonce = 2, hash = ''00160''\<rparr>],
        pendingTransactions = [], difficulty = 2, miningReward = 100\<rparr>"

text \<open>
  The sample ledger after \<^verbatim>\<open>addTransaction\<close> of alice's transfer of 60 and
  \<^verbatim>\<open>minePendingTransactions('bob')\<close> at times 21 and 22.
\<close>

definition sampleBlock2 :: "Transaction Block" where
  "sampleBlock2 =
     \<lparr>index = 2, timestamp = 22,
        transactions = [aliceToBob 60,
                        \<lparr>sender = ''MINING_REWARD'', recipient = ''bob'', amount = 100,
                           timestamp = 21, signature = None\<rparr>],
        previousHash = ''0083'', nonce = 2, hash = ''00170''\<rparr>"

definition sampleLedger3 :: "Transaction Blockchain" where
  "sampleLedger3 =
     \<lparr>chain = [sampleGenesisBlock, sampleBlock1, sampleBlock2], pendingTransactions = [],
        difficulty = 2, miningReward = 100\<rparr>"

text \<open>
  The same ledger with the amount of the reward in block 1 changed from 100 to 1000.
\<close>

definition rewardAlice1000 :: "Transaction list" where
  "rewardAlice1000 =
     [\<lparr>sender = ''MINING_REWARD'', recipient = ''alice'', amount = 1000,
        timestamp = 11, signature = None\<rparr>]"

definition sampleTampered3 :: "Transaction Blockchain" where
  "sampleTampered3 =
     sampleLedger3\<lparr>chain := (chain sampleLedger3)
        [1 := tamper (SetTransactions rewardAlice1000) (chain sampleLedger3 ! 1)]\<rparr>"

text \<open>
  For an arbitrary digest \<open>H\<close>: the ledger \<^verbatim>\<open>new Blockchain(0, 100)\<close> built at time 5
  and mined once for alice at times 11 and 12. At difficulty 0 every digest is accepted
  at nonce 0.
\<close>

definition freshGenesis :: "(string \<Rightarrow> string) \<Rightarrow> Transaction Block" where
  "freshGenesis H = Block_new H Transaction_toJSON 0 5 [] ''0'' 0"

definition easyLedger :: "(string \<Rightarrow> string) \<Rightarrow> Transaction Blockchain" where
  "easyLedger H =
     \<lparr>chain = [freshGenesis H,
               Block_new H Transaction_toJSON 1 12
                 [\<lparr>sender = ''MINING_REWARD'', recipient = ''alice'', amount = 100,
                    timestamp = 11, signature = None\<rparr>]
                 (hash (freshGenesis H)) 0],
        pendingTransactions = [], difficulty = 0, miningReward = 100\<rparr>"

text \<open>
  For an arbitrary digest \<open>H\<close>: the ledger \<^verbatim>\<open>new Blockchain(0, 9007199254740992)\<close>, whose
  reward is \<open>2 ^ 53\<close>, built at time 5; mined for alice at times 11 and 12 and for bob at
  times 13 and 14; then, after \<^verbatim>\<open>addTransaction\<close> of a signed transfer of 1 from bob to
  alice, of one of \<open>2 ^ 53\<close> from alice to bob and of another of 1 from bob to alice,
  mined for carol at times 41 and 42.
\<close>

definition bobToAlice :: "int \<Rightarrow> Transaction" where
  "bobToAlice now =
     \<lparr>sender = ''bob'', recipient = ''alice'', amount = 1, timestamp = now,
        signature = Some ''sig:bob''\<rparr>"

definition rewardTo :: "string \<Rightarrow> int \<Rightarrow> Transaction" where
  "rewardTo a now =
     \<lparr>sender = ''MINING_REWARD'', recipient = a, amount = 9007199254740992, timestamp = now,
        signature = None\<rparr>"

definition roundingBlock1 :: "(string \<Rightarrow> string) \<Rightarrow> Transaction Block" where
  "roundingBlock1 H =
     Block_new H Transaction_toJSON 1 12 [rewardTo ''alice'' 11] (hash (freshGenesis H)) 0"

definition roundingBlock2 :: "(string \<Rightarrow> string) \<Rightarrow> Transaction Block" where
  "roundingBlock2 H =
     Block_new H Transaction_toJSON 2 14 [rewardTo ''bob'' 13] (hash (roundingBlock1 H)) 0"

definition roundingPool :: "Transaction list" where
  "roundingPool = [bobToAlice 19, aliceToBob 9007199254740992, bobToAlice 21]"

definition roundingBlock3 :: "(string \<Rightarrow> string) \<Rightarrow> Transaction Block" where
  "roundingBlock3 H =
     Block_new H Transaction_toJSON 3 42 (roundingPool @ [rewardTo ''carol'' 41])
       (hash (roundingBlock2 H)) 0"

definition roundingLedger :: "(string \<Rightarrow> string) \<Rightarrow> Transaction Blockchain" where
  "roundingLedger H =
     \<lparr>chain = [freshGenesis H, roundingBlock1 H, roundingBlock2 H, roundingBlock3 H],
        pendingTransactions = [], difficulty = 0, miningReward = 9007199254740992\<rparr>"

text \<open>
  The sum of a list of numbers as a loop over doubles computes it, from 0 and in the
  order of the list.
\<close>

definition Number_sum :: "int list \<Rightarrow> int" where
  "Number_sum xs = fold (\<lambda>x s. Number_add s x) xs 0"

section \<open>Mining\<close>

lemma repeat_zero:
  "String_repeat ''0'' d = (if d < 0 then Inl RangeError else Inr (replicate (nat d) CHR ''0''))"
proof -
  have "concat (replicate n ''0'') = replicate n CHR ''0''" for n
    by (induction n) auto
  then show ?thesis by (simp add: String_repeat_def)
qed

lemma calculateHash_hash_upd [simp]:
  "Block_calculateHash H toJ (b\<lparr>hash := h\<rparr>) = Block_calculateHash H toJ b"
  by (simp add: Block_calculateHash_def)

text \<open>What the search loop has done when it returns, by induction on its run.\<close>

lemma mine_loop_result_aux:
  assumes "mine_loop H toJ target n b = Some y"
  shows "startsWith (MiningResult.hash (fst y)) target \<and>
     hash (snd y) = MiningResult.hash (fst y) \<and>
     MiningResult.hash (fst y) = Block_calculateHash H toJ (snd y) \<and>
     MiningResult.nonce (fst y) = nonce (snd y) \<and>
     nonce b \<le> nonce (snd y) \<and>
     attempts (fst y) = n + nat (nonce (snd y) - nonce b) + 1 \<and>
     (snd y)\<lparr>nonce := nonce b, hash := hash b\<rparr> = b"
proof -
  let ?P = "\<lambda>(H :: string \<Rightarrow> string) (toJ :: 'a \<Rightarrow> json) (target :: string) (n :: nat)
              (b :: 'a Block) (y :: MiningResult \<times> 'a Block).
     startsWith (MiningResult.hash (fst y)) target \<and>
     hash (snd y) = MiningResult.hash (fst y) \<and>
     MiningResult.hash (fst y) = Block_calculateHash H toJ (snd y) \<and>
     MiningResult.nonce (fst y) = nonce (snd y) \<and>
     nonce b \<le> nonce (snd y) \<and>
     attempts (fst y) = n + nat (nonce (snd y) - nonce b) + 1 \<and>
     (snd y)\<lparr>nonce := nonce b, hash := hash b\<rparr> = b"
  show ?thesis
  proof (rule mine_loop.raw_induct [where P = ?P, OF _ assms])
    fix f H toJ target n and block :: "'a Block" and y
    assume IH: "\<And>H toJ target n b y. f H toJ target n b = Some y \<Longrightarrow> ?P H toJ target n b y"
      and body: "(let h = Block_calculateHash H toJ block in
          if startsWith h target
          then Some (\<lparr>MiningResult.nonce = nonce block, MiningResult.hash = h, attempts = n + 1\<rparr>,
                     block\<lparr>hash := h\<rparr>)
          else f H toJ target (n + 1) (block\<lparr>nonce := nonce block + 1\<rparr>)) = Some y"
    show "?P H toJ target n block y"
    proof (cases "startsWith (Block_calculateHash H toJ block) target")
      case True
      with body show ?thesis by (auto simp: Let_def)
    next
      case False
      with body have rec: "f H toJ target (n + 1) (block\<lparr>nonce := nonce block + 1\<rparr>) = Some y"
        by (simp add: Let_def)
      have eq: "(snd y)\<lparr>nonce := nonce block, hash := hash block\<rparr> = block"
        if "(snd y)\<lparr>nonce := nonce block + 1, hash := hash block\<rparr>
              = block\<lparr>nonce := nonce block + 1\<rparr>"
        using that by (cases block, cases "snd y") simp
      from IH [OF rec] eq show ?thesis by (auto simp: nat_diff_distrib)
    qed
  qed
qed

lemma mine_loop_result:
  assumes "mine_loop H toJ target n b = Some (res, b')"
  shows "startsWith (MiningResult.hash res) target"
    and "hash b' = MiningResult.hash res"
    and "MiningResult.hash res = Block_calculateHash H toJ b'"
    and "MiningResult.nonce res = nonce b'"
    and "nonce b \<le> nonce b'"
    and "attempts res = n + nat (nonce b' - nonce b) + 1"
    and "b'\<lparr>nonce := nonce b, hash := hash b\<rparr> = b"
  using mine_loop_result_aux [OF assms] unfolding fst_conv snd_conv by blast+

lemma Miner_mine_result:
  assumes "Miner_mine H toJ d b = Some (Inr (res, b'))"
  shows "0 \<le> d" and "mine_loop H toJ (replicate (nat d) CHR ''0'') 0 b = Some (res, b')"
  using assms by (auto simp: Miner_mine_def repeat_zero split: if_splits)

lemma mined_block_fields:
  assumes "b'\<lparr>nonce := n, hash := h\<rparr> = b"
  shows "index b' = index b" and "timestamp b' = timestamp b"
    and "transactions b' = transactions b" and "previousHash b' = previousHash b"
proof -
  have "index b' = index (b'\<lparr>nonce := n, hash := h\<rparr>)"
       "timestamp b' = timestamp (b'\<lparr>nonce := n, hash := h\<rparr>)"
       "transactions b' = transactions (b'\<lparr>nonce := n, hash := h\<rparr>)"
       "previousHash b' = previousHash (b'\<lparr>nonce := n, hash := h\<rparr>)"
    by simp_all
  then show "index b' = index b" and "timestamp b' = timestamp b"
    and "transactions b' = transactions b" and "previousHash b' = previousHash b"
    by (simp_all only: assms)
qed

text \<open>
  C3. Whenever \<^verbatim>\<open>mine\<close> at difficulty \<open>d\<close> returns, the returned hash starts with \<open>d\<close>
  zero characters, it is the block's stored hash and the block's digest at the returned
  nonce, and index, time stamp, transactions and previous hash of the block are as they
  were.
\<close>

theorem mine_returns_valid_hash:
  assumes "Miner_mine H toJ d b = Some (Inr (res, b'))"
  shows "0 \<le> d
     \<and> take (nat d) (MiningResult.hash res) = replicate (nat d) CHR ''0''
     \<and> hash b' = MiningResult.hash res
     \<and> MiningResult.hash res = Block_calculateHash H toJ b'
     \<and> MiningResult.nonce res = nonce b'
     \<and> index b' = index b \<and> timestamp b' = timestamp b
     \<and> transactions b' = transactions b \<and> previousHash b' = previousHash b"
proof -
  note m = Miner_mine_result [OF assms]
  note r = mine_loop_result [OF m(2)]
  note same = mined_block_fields [OF r(7)]
  from r(1) have "take (nat d) (MiningResult.hash res) = replicate (nat d) CHR ''0''"
    by (simp add: startsWith_def)
  with m(1) r(2,3,4) same show ?thesis by simp
qed

lemma sample_mine:
  "Miner_mine sampleHash Transaction_toJSON 2
     (Block_new sampleHash Transaction_toJSON 0 5 [] ''0'' 0)
   = Some (Inr (\<lparr>MiningResult.nonce = 2, MiningResult.hash = ''006'', attempts = 3\<rparr>,
                \<lparr>index = 0, timestamp = 5, transactions = [], previousHash = ''0'',
                   nonce = 2, hash = ''006''\<rparr>))"
  by code_simp

theorem mine_returns_valid_hash_witness:
  "Miner_mine sampleHash Transaction_toJSON 2
     (Block_new sampleHash Transaction_toJSON 0 5 [] ''0'' 0)
   = Some (Inr (\<lparr>MiningResult.nonce = 2, MiningResult.hash = ''006'', attempts = 3\<rparr>,
                \<lparr>index = 0, timestamp = 5, transactions = [], previousHash = ''0'',
                   nonce = 2, hash = ''006''\<rparr>))
   \<and> take 2 ''006'' = ''00''
   \<and> Block_calculateHash sampleHash Transaction_toJSON
        \<lparr>index = 0, timestamp = 5, transactions = [], previousHash = ''0'',
           nonce = 2, hash = ''006''\<rparr> = ''006''"
  using mine_returns_valid_hash [OF sample_mine] sample_mine by simp

text \<open>
  The search returns as soon as some nonce from the block's own on gives a digest that
  starts with the target: the partial function is defined there.
\<close>

lemma mine_loop_returns:
  assumes "startsWith (Block_calculateHash H toJ (b\<lparr>nonce := nonce b + int k\<rparr>)) target"
  shows "\<exists>y. mine_loop H toJ target n b = Some y"
  using assms
proof (induction k arbitrary: b n)
  case 0
  then have "startsWith (Block_calculateHash H toJ b) target" by simp
  then show ?case by (subst mine_loop.simps) (simp add: Let_def)
next
  case (Suc k)
  show ?case
  proof (cases "startsWith (Block_calculateHash H toJ b) target")
    case True
    then show ?thesis by (subst mine_loop.simps) (simp add: Let_def)
  next
    case False
    from Suc.prems
    have "startsWith (Block_calculateHash H toJ
            ((b\<lparr>nonce := nonce b + 1\<rparr>)\<lparr>nonce := nonce (b\<lparr>nonce := nonce b + 1\<rparr>) + int k\<rparr>)) target"
      by (simp add: algebra_simps)
    from Suc.IH [OF this, of "n + 1"] obtain y where
      "mine_loop H toJ target (n + 1) (b\<lparr>nonce := nonce b + 1\<rparr>) = Some y" by blast
    with False show ?thesis by (subst mine_loop.simps) (simp add: Let_def)
  qed
qed

lemma Miner_mine_returns:
  assumes "0 \<le> d"
    and "startsWith (Block_calculateHash H toJ (b\<lparr>nonce := nonce b + int k\<rparr>))
           (replicate (nat d) CHR ''0'')"
  shows "\<exists>res b'. Miner_mine H toJ d b = Some (Inr (res, b'))"
  using mine_loop_returns [OF assms(2), of 0] assms(1)
  by (auto simp: Miner_mine_def repeat_zero)

section \<open>Transactions\<close>

text \<open>
  C5, as the code has it. \<^verbatim>\<open>isValid\<close> is true when the sender is the empty string or
  \<open>MINING_REWARD\<close>; otherwise it is false when the signature is absent or the empty
  string; otherwise it is the answer of \<^verbatim>\<open>Wallet.verify\<close> for the signature, the
  transaction's digest and the sender's key (false when the library throws).
\<close>

theorem isValid_cases:
  "(sender t = '''' \<or> sender t = ''MINING_REWARD'' \<longrightarrow> isValid H V t)
   \<and> (sender t \<noteq> '''' \<and> sender t \<noteq> ''MINING_REWARD''
        \<and> (signature t = None \<or> signature t = Some '''') \<longrightarrow> \<not> isValid H V t)
   \<and> (sender t \<noteq> '''' \<and> sender t \<noteq> ''MINING_REWARD'' \<and> signature t = Some sg \<and> sg \<noteq> ''''
        \<longrightarrow> isValid H V t = Wallet_verify V (sender t) (Transaction_calculateHash H t) sg)"
  by (auto simp: isValid_def Wallet_verify_def split: option.splits)

theorem isValid_cases_witness:
  "isValid sampleHash sampleVerify
     \<lparr>sender = ''MINING_REWARD'', recipient = ''alice'', amount = 100, timestamp = 11,
        signature = None\<rparr>
   \<and> \<not> isValid sampleHash sampleVerify
        \<lparr>sender = ''alice'', recipient = ''bob'', amount = 60, timestamp = 20, signature = None\<rparr>
   \<and> isValid sampleHash sampleVerify (aliceToBob 60)
   \<and> Wallet_verify sampleVerify ''alice''
        (Transaction_calculateHash sampleHash (aliceToBob 60)) ''sig:alice''"
  using
    isValid_cases [where t = "\<lparr>sender = ''MINING_REWARD'', recipient = ''alice'', amount = 100,
      timestamp = 11, signature = None\<rparr>" and H = sampleHash and V = sampleVerify]
    isValid_cases [where t = "\<lparr>sender = ''alice'', recipient = ''bob'', amount = 60,
      timestamp = 20, signature = None\<rparr>" and H = sampleHash and V = sampleVerify]
    isValid_cases [where t = "aliceToBob 60" and sg = "''sig:alice''" and H = sampleHash
      and V = sampleVerify]
  by (simp add: aliceToBob_def Wallet_verify_def sampleVerify_def)

text \<open>
  C5 as the specification words it fails: a transaction whose sender is the empty
  string is not from the reward sentinel \<open>MINING_REWARD\<close> and carries no signature, and
  \<^verbatim>\<open>isValid\<close> answers true, whatever the digest and the signature check are.
\<close>

theorem isValid_empty_sender_counterexample:
  "\<forall>H V. isValid H V \<lparr>sender = '''', recipient = ''bob'', amount = 5, timestamp = 1, signature = None\<rparr>
         \<and> sender \<lparr>sender = '''', recipient = ''bob'', amount = 5, timestamp = 1, signature = None\<rparr> \<noteq> ''MINING_REWARD''
         \<and> signature \<lparr>sender = '''', recipient = ''bob'', amount = 5, timestamp = 1, signature = None\<rparr> = None"
  by (simp add: isValid_def)

section \<open>Balances\<close>

text \<open>Integers of magnitude below \<open>2 ^ 53\<close> are doubles: rounding leaves them alone.\<close>

lemma bitLength_bound: "n < 2 ^ k \<Longrightarrow> bitLength n \<le> k"
proof (induction k arbitrary: n)
  case 0
  then show ?case by (subst bitLength.simps) simp
next
  case (Suc k)
  show ?case
  proof (cases "n \<le> 0")
    case True
    then show ?thesis by (subst bitLength.simps) simp
  next
    case False
    from Suc.prems have "n div 2 < 2 ^ k" by simp
    from Suc.IH [OF this] False show ?thesis by (subst bitLength.simps) simp
  qed
qed

lemma roundToDouble_exact: "\<bar>n\<bar> < 2 ^ 53 \<Longrightarrow> roundToDouble n = n"
proof -
  assume "\<bar>n\<bar> < 2 ^ 53"
  then have "bitLength \<bar>n\<bar> \<le> 53" by (rule bitLength_bound)
  then have "bitLength \<bar>n\<bar> - 53 = 0" by simp
  then show ?thesis by (simp add: roundToDouble_def Let_def mult_sgn_abs)
qed

lemma roundToDouble_two_53: "roundToDouble 9007199254740992 = 9007199254740992"
  by code_simp

lemma roundToDouble_two_53_plus_1: "roundToDouble 9007199254740993 = 9007199254740992"
  by code_simp

text \<open>
  One step of the loop is exact when the balance so far and the amount together stay
  below \<open>2 ^ 53\<close>; the bound is carried along the transactions and the blocks.
\<close>

lemma balance_tx_exact:
  assumes "\<bar>acc\<bar> + (if sender tx = a \<or> recipient tx = a then \<bar>amount tx\<bar> else 0) < 2 ^ 53"
  shows "balance_tx a tx acc
           = acc + (if recipient tx = a then amount tx else 0)
                 - (if sender tx = a then amount tx else 0)"
    and "\<bar>balance_tx a tx acc\<bar>
           \<le> \<bar>acc\<bar> + (if sender tx = a \<or> recipient tx = a then \<bar>amount tx\<bar> else 0)"
proof -
  have eq: "balance_tx a tx acc
           = acc + (if recipient tx = a then amount tx else 0)
                 - (if sender tx = a then amount tx else 0)"
  proof (cases "sender tx = a")
    case s: True
    with assms have "\<bar>acc - amount tx\<bar> < 2 ^ 53" by simp
    then have sub: "Number_sub acc (amount tx) = acc - amount tx"
      by (simp add: Number_sub_def roundToDouble_exact)
    show ?thesis
    proof (cases "recipient tx = a")
      case True
      from assms have "\<bar>acc\<bar> < 2 ^ 53" by (simp split: if_splits)
      then have "Number_add (acc - amount tx) (amount tx) = acc"
        by (simp add: Number_add_def roundToDouble_exact)
      with s True sub show ?thesis by (simp add: balance_tx_def Let_def)
    next
      case False
      with s sub show ?thesis by (simp add: balance_tx_def Let_def)
    qed
  next
    case s: False
    show ?thesis
    proof (cases "recipient tx = a")
      case True
      with assms have "\<bar>acc + amount tx\<bar> < 2 ^ 53" by simp
      then have "Number_add acc (amount tx) = acc + amount tx"
        by (simp add: Number_add_def roundToDouble_exact)
      with s True show ?thesis by (simp add: balance_tx_def Let_def)
    next
      case False
      with s show ?thesis by (simp add: balance_tx_def Let_def)
    qed
  qed
  then show "balance_tx a tx acc
           = acc + (if recipient tx = a then amount tx else 0)
                 - (if sender tx = a then amount tx else 0)" .
  show "\<bar>balance_tx a tx acc\<bar>
           \<le> \<bar>acc\<bar> + (if sender tx = a \<or> recipient tx = a then \<bar>amount tx\<bar> else 0)"
    unfolding eq
    by (cases "sender tx = a"; cases "recipient tx = a"; simp; arith)
qed

lemma volume_Cons:
  "volume a (tx # txs)
     = (if sender tx = a \<or> recipient tx = a then \<bar>amount tx\<bar> else 0) + volume a txs"
  by (simp add: volume_def)

lemma volume_append: "volume a (xs @ ys) = volume a xs + volume a ys"
  by (simp add: volume_def)

lemma volume_nonneg: "0 \<le> volume a txs"
  by (induction txs) (simp_all add: volume_def)

lemma fold_balance_tx:
  assumes "\<bar>acc\<bar> + volume a txs < 2 ^ 53"
  shows "fold (balance_tx a) txs acc =
     acc + sum_list (map amount (filter (\<lambda>tx. recipient tx = a) txs))
         - sum_list (map amount (filter (\<lambda>tx. sender tx = a) txs))
     \<and> \<bar>fold (balance_tx a) txs acc\<bar> \<le> \<bar>acc\<bar> + volume a txs"
  using assms
proof (induction txs arbitrary: acc)
  case Nil
  then show ?case by (simp add: volume_def)
next
  case (Cons tx txs)
  define w where "w = (if sender tx = a \<or> recipient tx = a then \<bar>amount tx\<bar> else 0)"
  define b where "b = balance_tx a tx acc"
  have v: "volume a (tx # txs) = w + volume a txs"
    by (simp add: volume_Cons w_def)
  from Cons.prems have bound: "\<bar>acc\<bar> + w + volume a txs < 2 ^ 53"
    by (simp add: v)
  with volume_nonneg [of a txs] have "\<bar>acc\<bar> + w < 2 ^ 53" by linarith
  then have "\<bar>acc\<bar> + (if sender tx = a \<or> recipient tx = a then \<bar>amount tx\<bar> else 0) < 2 ^ 53"
    by (simp add: w_def)
  note st = balance_tx_exact [OF this]
  from st(2) have sb: "\<bar>b\<bar> \<le> \<bar>acc\<bar> + w" by (simp add: w_def b_def)
  with bound have "\<bar>b\<bar> + volume a txs < 2 ^ 53" by linarith
  from Cons.IH [OF this]
  have 1: "fold (balance_tx a) txs b =
     b + sum_list (map amount (filter (\<lambda>tx. recipient tx = a) txs))
       - sum_list (map amount (filter (\<lambda>tx. sender tx = a) txs))"
    and 2: "\<bar>fold (balance_tx a) txs b\<bar> \<le> \<bar>b\<bar> + volume a txs"
    by blast+
  have f: "fold (balance_tx a) (tx # txs) acc = fold (balance_tx a) txs b"
    by (simp add: b_def)
  have e: "fold (balance_tx a) (tx # txs) acc =
     acc + sum_list (map amount (filter (\<lambda>tx. recipient tx = a) (tx # txs)))
         - sum_list (map amount (filter (\<lambda>tx. sender tx = a) (tx # txs)))"
    unfolding f 1 unfolding b_def st(1) by simp
  from 2 sb have "\<bar>fold (balance_tx a) (tx # txs) acc\<bar> \<le> \<bar>acc\<bar> + volume a (tx # txs)"
    unfolding f v by linarith
  with e show ?case by blast
qed

lemma fold_blocks_balance:
  assumes "\<bar>acc\<bar> + volume a (concat (map transactions blocks)) < 2 ^ 53"
  shows "fold (\<lambda>block balance. fold (balance_tx a) (transactions block) balance) blocks acc =
     acc + sum_list (map amount (filter (\<lambda>tx. recipient tx = a) (concat (map transactions blocks))))
         - sum_list (map amount (filter (\<lambda>tx. sender tx = a) (concat (map transactions blocks))))"
  using assms
proof (induction blocks arbitrary: acc)
  case Nil
  then show ?case by simp
next
  case (Cons b blocks)
  let ?rest = "concat (map transactions blocks)"
  from Cons.prems have b: "\<bar>acc\<bar> + volume a (transactions b) + volume a ?rest < 2 ^ 53"
    by (simp add: volume_append)
  with volume_nonneg [of a ?rest] have "\<bar>acc\<bar> + volume a (transactions b) < 2 ^ 53"
    by linarith
  note st = fold_balance_tx [OF this]
  from st b have "\<bar>fold (balance_tx a) (transactions b) acc\<bar> + volume a ?rest < 2 ^ 53"
    by linarith
  note ih = Cons.IH [OF this]
  from ih st show ?case by simp
qed

lemma getBalance_pending:
  "getBalanceOfAddress (bc\<lparr>pendingTransactions := p\<rparr>) a = getBalanceOfAddress bc a"
  by (simp add: getBalanceOfAddress_def)

text \<open>
  C7, as the code has it. When the absolute amounts of the transactions of the chain
  that an address sends or receives add up to less than \<open>2 ^ 53\<close>, its balance is the sum
  of the amounts it receives in the blocks of the chain minus the sum of the amounts it
  sends there. For every ledger, the pending pool plays no part.
\<close>

theorem balance_law:
  "(volume a (concat (map transactions (chain bc))) < 2 ^ 53 \<longrightarrow>
      getBalanceOfAddress bc a =
        sum_list (map amount (filter (\<lambda>tx. recipient tx = a) (concat (map transactions (chain bc)))))
          - sum_list (map amount (filter (\<lambda>tx. sender tx = a) (concat (map transactions (chain bc))))))
   \<and> getBalanceOfAddress (bc\<lparr>pendingTransactions := p\<rparr>) a = getBalanceOfAddress bc a"
proof (intro conjI impI)
  assume "volume a (concat (map transactions (chain bc))) < 2 ^ 53"
  then have "\<bar>0\<bar> + volume a (concat (map transactions (chain bc))) < 2 ^ 53" by simp
  from fold_blocks_balance [OF this]
  show "getBalanceOfAddress bc a =
        sum_list (map amount (filter (\<lambda>tx. recipient tx = a) (concat (map transactions (chain bc)))))
          - sum_list (map amount (filter (\<lambda>tx. sender tx = a) (concat (map transactions (chain bc)))))"
    by (simp add: getBalanceOfAddress_def)
next
  show "getBalanceOfAddress (bc\<lparr>pendingTransactions := p\<rparr>) a = getBalanceOfAddress bc a"
    by (rule getBalance_pending)
qed

lemma sampleLedger3_confirmed:
  "concat (map transactions (chain sampleLedger3))
     = [\<lparr>sender = ''MINING_REWARD'', recipient = ''alice'', amount = 100, timestamp = 11,
          signature = None\<rparr>,
        aliceToBob 60,
        \<lparr>sender = ''MINING_REWARD'', recipient = ''bob'', amount = 100, timestamp = 21,
          signature = None\<rparr>]"
  by (simp add: sampleLedger3_def sampleGenesisBlock_def sampleBlock1_def sampleBlock2_def)

theorem balance_law_witness:
  "volume ''alice'' (concat (map transactions (chain sampleLedger3))) = 160
   \<and> getBalanceOfAddress sampleLedger3 ''alice'' = 40
   \<and> getBalanceOfAddress (sampleLedger3\<lparr>pendingTransactions := [aliceToBob 5]\<rparr>) ''alice'' = 40"
proof -
  have v: "volume ''alice'' (concat (map transactions (chain sampleLedger3))) = 160"
    by (simp add: sampleLedger3_confirmed volume_def aliceToBob_def)
  note t = balance_law [where a = "''alice''" and bc = sampleLedger3 and p = "[aliceToBob 5]"]
  from t v have b: "getBalanceOfAddress sampleLedger3 ''alice'' = 40"
    by (simp add: sampleLedger3_confirmed aliceToBob_def)
  from t b have "getBalanceOfAddress (sampleLedger3\<lparr>pendingTransactions := [aliceToBob 5]\<rparr>)
      ''alice'' = 40"
    by simp
  with v b show ?thesis by blast
qed

lemma sampleLedger_balance: "getBalanceOfAddress sampleLedger ''alice'' = 100"
  by (simp add: getBalanceOfAddress_def sampleLedger_def sampleGenesisBlock_def sampleBlock1_def
        balance_tx_def Number_add_def roundToDouble_exact)

lemma aliceToBob_valid: "isValid sampleHash sampleVerify (aliceToBob n)"
  by (simp add: isValid_def aliceToBob_def sampleVerify_def)

lemma aliceToBob_fields:
  "amount (aliceToBob n) = n" "sender (aliceToBob n) = ''alice''"
  "sender (aliceToBob n) \<noteq> ''MINING_REWARD''"
  by (simp_all add: aliceToBob_def)

lemma sampleLedger_pending: "pendingTransactions sampleLedger = []"
  by (simp add: sampleLedger_def)

section \<open>Admission of transactions\<close>

text \<open>
  C6. For a valid transaction whose sender is not \<open>MINING_REWARD\<close>, \<^verbatim>\<open>addTransaction\<close>
  throws \<^verbatim>\<open>InsufficientBalanceError\<close> exactly when the sender's balance is less than the
  amount; the ledger is then as it was; a balance equal to the amount is accepted.
\<close>

theorem addTransaction_insufficient_iff:
  assumes "sender t \<noteq> ''MINING_REWARD''" and "isValid H V t"
  shows "(fst (addTransaction H V bc t) = Inl InsufficientBalanceError
            \<longleftrightarrow> getBalanceOfAddress bc (sender t) < amount t)
     \<and> (fst (addTransaction H V bc t) = Inl InsufficientBalanceError
            \<longrightarrow> snd (addTransaction H V bc t) = bc)
     \<and> (getBalanceOfAddress bc (sender t) = amount t
            \<longrightarrow> addTransaction H V bc t
                 = (Inr True, bc\<lparr>pendingTransactions := pendingTransactions bc @ [t]\<rparr>))"
  using assms by (simp add: addTransaction_def)

theorem addTransaction_insufficient_iff_witness:
  "fst (addTransaction sampleHash sampleVerify sampleLedger (aliceToBob 101))
     = Inl InsufficientBalanceError
   \<and> snd (addTransaction sampleHash sampleVerify sampleLedger (aliceToBob 101)) = sampleLedger
   \<and> addTransaction sampleHash sampleVerify sampleLedger (aliceToBob 100)
     = (Inr True, sampleLedger\<lparr>pendingTransactions := [aliceToBob 100]\<rparr>)"
  using
    addTransaction_insufficient_iff [OF aliceToBob_fields(3) [of 101] aliceToBob_valid [of 101],
      where bc = sampleLedger]
    addTransaction_insufficient_iff [OF aliceToBob_fields(3) [of 100] aliceToBob_valid [of 100],
      where bc = sampleLedger]
  by (simp add: aliceToBob_fields sampleLedger_pending sampleLedger_balance)

text \<open>
  C9. Two valid transactions of one sender, each within the sender's balance in the
  chain, are both accepted one after the other and both end in the pending pool, also
  when together they exceed the balance; the answer of \<^verbatim>\<open>addTransaction\<close> does not
  depend on the pending pool.
\<close>

theorem pending_not_reserved:
  assumes "sender t1 = s" and "sender t2 = s"
    and "isValid H V t1" and "isValid H V t2"
    and "amount t1 \<le> getBalanceOfAddress bc s" and "amount t2 \<le> getBalanceOfAddress bc s"
  shows "addTransaction H V bc t1
           = (Inr True, bc\<lparr>pendingTransactions := pendingTransactions bc @ [t1]\<rparr>)
     \<and> addTransaction H V (bc\<lparr>pendingTransactions := pendingTransactions bc @ [t1]\<rparr>) t2
           = (Inr True, bc\<lparr>pendingTransactions := pendingTransactions bc @ [t1, t2]\<rparr>)
     \<and> fst (addTransaction H V (bc\<lparr>pendingTransactions := p\<rparr>) t2) = fst (addTransaction H V bc t2)"
  using assms by (simp add: addTransaction_def getBalance_pending)

theorem pending_not_reserved_witness:
  "addTransaction sampleHash sampleVerify sampleLedger (aliceToBob 60)
     = (Inr True, sampleLedger\<lparr>pendingTransactions := [aliceToBob 60]\<rparr>)
   \<and> addTransaction sampleHash sampleVerify
        (sampleLedger\<lparr>pendingTransactions := [aliceToBob 60]\<rparr>) (aliceToBob 70)
     = (Inr True, sampleLedger\<lparr>pendingTransactions := [aliceToBob 60, aliceToBob 70]\<rparr>)
   \<and> getBalanceOfAddress sampleLedger ''alice'' < 60 + 70"
proof -
  have le: "amount (aliceToBob 60) \<le> getBalanceOfAddress sampleLedger ''alice''"
           "amount (aliceToBob 70) \<le> getBalanceOfAddress sampleLedger ''alice''"
    by (simp_all add: aliceToBob_fields sampleLedger_balance)
  from pending_not_reserved [OF aliceToBob_fields(2) aliceToBob_fields(2)
         aliceToBob_valid aliceToBob_valid le]
  show ?thesis
    by (simp add: sampleLedger_pending sampleLedger_balance)
qed

section \<open>Producing blocks\<close>

lemma createMiningReward_Inr:
  "createMiningReward a r now = Inr tx \<longleftrightarrow>
     0 < r \<and> tx = \<lparr>sender = ''MINING_REWARD'', recipient = a, amount = r, timestamp = now, signature = None\<rparr>"
  by (auto simp: createMiningReward_def Transaction_new_def)

lemma Block_new_fields [simp]:
  "index (Block_new H toJ i ts txs prev n) = i"
  "timestamp (Block_new H toJ i ts txs prev n) = ts"
  "transactions (Block_new H toJ i ts txs prev n) = txs"
  "previousHash (Block_new H toJ i ts txs prev n) = prev"
  "nonce (Block_new H toJ i ts txs prev n) = n"
  "hash (Block_new H toJ i ts txs prev n) = Block_calculateHash H toJ (Block_new H toJ i ts txs prev n)"
  by (simp_all add: Block_new_def Let_def Block_calculateHash_def)

lemma minePendingTransactions_unfold:
  "minePendingTransactions H bc a now1 now2 =
     (if miningReward bc \<le> 0 then Some (Inl InvalidAmountError, bc)
      else if chain bc = [] then
        Some (Inl TypeError,
              bc\<lparr>pendingTransactions := pendingTransactions bc
                     @ [\<lparr>sender = ''MINING_REWARD'', recipient = a, amount = miningReward bc,
                         timestamp = now1, signature = None\<rparr>]\<rparr>)
      else
        (case Miner_mine H Transaction_toJSON (difficulty bc)
                (Block_new H Transaction_toJSON (int (length (chain bc))) now2
                   (pendingTransactions bc
                      @ [\<lparr>sender = ''MINING_REWARD'', recipient = a, amount = miningReward bc,
                          timestamp = now1, signature = None\<rparr>])
                   (hash (last (chain bc))) 0) of
           None \<Rightarrow> None
         | Some (Inl e) \<Rightarrow>
             Some (Inl e,
                   bc\<lparr>pendingTransactions := pendingTransactions bc
                     @ [\<lparr>sender = ''MINING_REWARD'', recipient = a, amount = miningReward bc,
                         timestamp = now1, signature = None\<rparr>]\<rparr>)
         | Some (Inr (res, mined)) \<Rightarrow>
             Some (Inr mined, bc\<lparr>chain := chain bc @ [mined], pendingTransactions := []\<rparr>)))"
  by (simp add: minePendingTransactions_def createMiningReward_def Transaction_new_def
        getLatestBlock_def Let_def split: option.split sum.split prod.split)

lemma minePendingTransactions_success:
  assumes "minePendingTransactions H bc a now1 now2 = Some (Inr blk, bc')"
  shows "0 < miningReward bc" and "chain bc \<noteq> []" and "0 \<le> difficulty bc"
    and "bc' = bc\<lparr>chain := chain bc @ [blk], pendingTransactions := []\<rparr>"
    and "transactions blk = pendingTransactions bc
           @ [\<lparr>sender = ''MINING_REWARD'', recipient = a, amount = miningReward bc,
               timestamp = now1, signature = None\<rparr>]"
    and "index blk = int (length (chain bc))"
    and "timestamp blk = now2"
    and "previousHash blk = hash (last (chain bc))"
    and "hash blk = Block_calculateHash H Transaction_toJSON blk"
    and "startsWith (hash blk) (replicate (nat (difficulty bc)) CHR ''0'')"
proof -
  let ?rw = "\<lparr>sender = ''MINING_REWARD'', recipient = a, amount = miningReward bc,
               timestamp = now1, signature = None\<rparr>"
  let ?b0 = "Block_new H Transaction_toJSON (int (length (chain bc))) now2
               (pendingTransactions bc @ [?rw]) (hash (last (chain bc))) 0"
  note u = assms [unfolded minePendingTransactions_unfold]
  from u show pos: "0 < miningReward bc" by (simp split: if_splits)
  from u show ne: "chain bc \<noteq> []" by (simp split: if_splits)
  from u pos ne have c: "(case Miner_mine H Transaction_toJSON (difficulty bc) ?b0 of
           None \<Rightarrow> None
         | Some (Inl e) \<Rightarrow> Some (Inl e, bc\<lparr>pendingTransactions := pendingTransactions bc @ [?rw]\<rparr>)
         | Some (Inr (res, mined)) \<Rightarrow>
             Some (Inr mined, bc\<lparr>chain := chain bc @ [mined], pendingTransactions := []\<rparr>))
       = Some (Inr blk, bc')"
    by simp
  then obtain res where
    m: "Miner_mine H Transaction_toJSON (difficulty bc) ?b0 = Some (Inr (res, blk))"
    and bc': "bc' = bc\<lparr>chain := chain bc @ [blk], pendingTransactions := []\<rparr>"
    by (cases "Miner_mine H Transaction_toJSON (difficulty bc) ?b0")
       (auto split: sum.splits)
  from bc' show "bc' = bc\<lparr>chain := chain bc @ [blk], pendingTransactions := []\<rparr>" .
  note mm = Miner_mine_result [OF m]
  note r = mine_loop_result [OF mm(2)]
  note same = mined_block_fields [OF r(7)]
  from mm(1) show "0 \<le> difficulty bc" .
  from same show "transactions blk = pendingTransactions bc @ [?rw]"
    and "index blk = int (length (chain bc))" and "timestamp blk = now2"
    and "previousHash blk = hash (last (chain bc))"
    by simp_all
  from r(2,3) show "hash blk = Block_calculateHash H Transaction_toJSON blk" by simp
  from r(1,2) show "startsWith (hash blk) (replicate (nat (difficulty bc)) CHR ''0'')" by simp
qed

lemma minePendingTransactions_failure:
  assumes "minePendingTransactions H bc a now1 now2 = Some (Inl e, bc')"
  shows "chain bc' = chain bc" and "difficulty bc' = difficulty bc"
    and "miningReward bc' = miningReward bc"
  using assms unfolding minePendingTransactions_unfold
  by (auto split: if_splits option.splits sum.splits)

text \<open>
  C4. When \<^verbatim>\<open>minePendingTransactions(a)\<close> returns, the pending pool is empty, the chain
  is the one before with the returned block appended, the block holds the pool as it was
  followed by one reward transaction from \<open>MINING_REWARD\<close> to \<open>a\<close> of the ledger's mining
  reward, its index is the length the chain had and its previous hash the hash of the
  block that was last.
\<close>

theorem minePendingTransactions_appends_block:
  assumes "minePendingTransactions H bc a now1 now2 = Some (Inr blk, bc')"
  shows "pendingTransactions bc' = []
     \<and> chain bc' = chain bc @ [blk]
     \<and> transactions blk = pendingTransactions bc
           @ [\<lparr>sender = ''MINING_REWARD'', recipient = a, amount = miningReward bc,
               timestamp = now1, signature = None\<rparr>]
     \<and> index blk = int (length (chain bc))
     \<and> chain bc \<noteq> []
     \<and> previousHash blk = hash (last (chain bc))
     \<and> difficulty bc' = difficulty bc \<and> miningReward bc' = miningReward bc"
  using minePendingTransactions_success [OF assms] by simp

lemma sample_constructed:
  "Blockchain_new sampleHash Transaction_toJSON 2 100 5 = Some (Inr sampleNew)"
  by code_simp

lemma sample_mined:
  "minePendingTransactions sampleHash sampleNew ''alice'' 11 12
     = Some (Inr sampleBlock1, sampleLedger)"
  by code_simp

lemma sample_mined_again:
  "minePendingTransactions sampleHash (sampleLedger\<lparr>pendingTransactions := [aliceToBob 60]\<rparr>)
      ''bob'' 21 22
     = Some (Inr sampleBlock2, sampleLedger3)"
  by code_simp

theorem minePendingTransactions_appends_block_witness:
  "minePendingTransactions sampleHash (sampleLedger\<lparr>pendingTransactions := [aliceToBob 60]\<rparr>)
      ''bob'' 21 22
     = Some (Inr sampleBlock2, sampleLedger3)
   \<and> pendingTransactions sampleLedger3 = []
   \<and> chain sampleLedger3 = chain sampleLedger @ [sampleBlock2]
   \<and> transactions sampleBlock2
       = [aliceToBob 60,
          \<lparr>sender = ''MINING_REWARD'', recipient = ''bob'', amount = 100,
            timestamp = 21, signature = None\<rparr>]
   \<and> index sampleBlock2 = 2
   \<and> previousHash sampleBlock2 = hash sampleBlock1"
  using minePendingTransactions_appends_block [OF sample_mined_again] sample_mined_again
  by (simp add: sampleLedger_def)

section \<open>Reward transactions through the public interface\<close>

lemma fold_balance_append:
  "getBalanceOfAddress (bc\<lparr>chain := chain bc @ [blk], pendingTransactions := p\<rparr>) a
     = fold (balance_tx a) (transactions blk) (getBalanceOfAddress bc a)"
  by (simp add: getBalanceOfAddress_def)

text \<open>
  C10. A transaction whose sender is the string \<open>MINING_REWARD\<close> is appended to the
  pending pool and \<^verbatim>\<open>addTransaction\<close> answers true, for every signature check \<open>V\<close>,
  every digest \<open>H\<close>, every ledger, recipient, amount and signature: neither \<open>V\<close> nor the
  balance is consulted. Mined from an empty pool by another address, it raises the
  balance of its recipient by its amount (one \<^verbatim>\<open>+=\<close> of the code).
\<close>

theorem reward_sender_admitted:
  assumes "sender t = ''MINING_REWARD''"
  shows "addTransaction H V bc t
           = (Inr True, bc\<lparr>pendingTransactions := pendingTransactions bc @ [t]\<rparr>)
     \<and> (minePendingTransactions H (bc\<lparr>pendingTransactions := pendingTransactions bc @ [t]\<rparr>)
            a now1 now2 = Some (Inr blk, bc')
          \<and> pendingTransactions bc = []
          \<and> recipient t \<noteq> ''MINING_REWARD'' \<and> a \<noteq> recipient t
        \<longrightarrow> getBalanceOfAddress bc' (recipient t)
              = Number_add (getBalanceOfAddress bc (recipient t)) (amount t))"
proof (intro conjI impI)
  from assms show "addTransaction H V bc t
           = (Inr True, bc\<lparr>pendingTransactions := pendingTransactions bc @ [t]\<rparr>)"
    by (simp add: addTransaction_def)
next
  let ?bc1 = "bc\<lparr>pendingTransactions := pendingTransactions bc @ [t]\<rparr>"
  assume a: "minePendingTransactions H ?bc1 a now1 now2 = Some (Inr blk, bc')
          \<and> pendingTransactions bc = []
          \<and> recipient t \<noteq> ''MINING_REWARD'' \<and> a \<noteq> recipient t"
  then have m: "minePendingTransactions H ?bc1 a now1 now2 = Some (Inr blk, bc')"
    and e: "pendingTransactions bc = []" "recipient t \<noteq> ''MINING_REWARD''" "a \<noteq> recipient t"
    by blast+
  note s = minePendingTransactions_success [OF m]
  from s(4) have "bc' = bc\<lparr>chain := chain bc @ [blk], pendingTransactions := []\<rparr>" by simp
  then have "getBalanceOfAddress bc' (recipient t)
      = fold (balance_tx (recipient t)) (transactions blk) (getBalanceOfAddress bc (recipient t))"
    by (simp only: fold_balance_append)
  with s(5) assms e show "getBalanceOfAddress bc' (recipient t)
              = Number_add (getBalanceOfAddress bc (recipient t)) (amount t)"
    by (simp add: balance_tx_def Let_def)
qed

lemma sample_minted:
  "minePendingTransactions sampleHash (sampleNew\<lparr>pendingTransactions := [malloryReward]\<rparr>)
      ''alice'' 31 32
     = Some (Inr (last (chain sampleMinted)), sampleMinted)"
  by code_simp

theorem reward_sender_admitted_witness:
  "addTransaction sampleHash sampleVerify sampleNew malloryReward
     = (Inr True, sampleNew\<lparr>pendingTransactions := [malloryReward]\<rparr>)
   \<and> minePendingTransactions sampleHash (sampleNew\<lparr>pendingTransactions := [malloryReward]\<rparr>)
        ''alice'' 31 32
     = Some (Inr (last (chain sampleMinted)), sampleMinted)
   \<and> getBalanceOfAddress sampleMinted ''mallory''
     = Number_add (getBalanceOfAddress sampleNew ''mallory'') 900
   \<and> getBalanceOfAddress sampleMinted ''mallory'' = 900"
proof -
  have f: "sender malloryReward = ''MINING_REWARD''" "recipient malloryReward = ''mallory''"
    "amount malloryReward = 900"
    by (simp_all add: malloryReward_def)
  have p: "pendingTransactions sampleNew = []"
    by (simp add: sampleNew_def)
  note t = reward_sender_admitted [OF f(1), where H = sampleHash and V = sampleVerify
      and bc = sampleNew and a = "''alice''" and ?now1.0 = 31 and ?now2.0 = 32
      and blk = "last (chain sampleMinted)" and bc' = sampleMinted]
  from t have 1: "addTransaction sampleHash sampleVerify sampleNew malloryReward
     = (Inr True, sampleNew\<lparr>pendingTransactions := [malloryReward]\<rparr>)"
    by (simp add: p)
  from t sample_minted have 2: "getBalanceOfAddress sampleMinted ''mallory''
     = Number_add (getBalanceOfAddress sampleNew ''mallory'') 900"
    by (simp add: p f)
  have "getBalanceOfAddress sampleNew ''mallory'' = 0"
    by (simp add: getBalanceOfAddress_def sampleNew_def sampleGenesisBlock_def)
  with 2 have 3: "getBalanceOfAddress sampleMinted ''mallory'' = 900"
    by (simp add: Number_add_def roundToDouble_exact)
  from 1 sample_minted 2 3 show ?thesis by blast
qed

section \<open>The invariant of the reachable ledgers\<close>

lemma Blockchain_new_result:
  assumes "Blockchain_new H toJ d r now = Some (Inr bc)"
  shows "\<exists>g. chain bc = [g] \<and> previousHash g = ''0'' \<and> transactions g = [] \<and> index g = 0
           \<and> timestamp g = now
           \<and> hash g = Block_calculateHash H toJ g
           \<and> startsWith (hash g) (replicate (nat d) CHR ''0'')"
    and "pendingTransactions bc = []" and "difficulty bc = d" and "miningReward bc = r"
    and "0 \<le> d"
proof -
  from assms obtain res g where
    m: "Miner_mine H toJ d (Block_new H toJ 0 now [] ''0'' 0) = Some (Inr (res, g))"
    and bc: "bc = \<lparr>chain = [g], pendingTransactions = [], difficulty = d, miningReward = r\<rparr>"
    by (cases "Miner_mine H toJ d (Block_new H toJ 0 now [] ''0'' 0)")
       (auto simp: Blockchain_new_def createGenesisBlock_def split: sum.splits)
  note mm = Miner_mine_result [OF m]
  note rr = mine_loop_result [OF mm(2)]
  note same = mined_block_fields [OF rr(7)]
  from bc same rr(1,2,3)
  show "\<exists>g. chain bc = [g] \<and> previousHash g = ''0'' \<and> transactions g = [] \<and> index g = 0
           \<and> timestamp g = now
           \<and> hash g = Block_calculateHash H toJ g
           \<and> startsWith (hash g) (replicate (nat d) CHR ''0'')"
    by simp
  from bc show "pendingTransactions bc = []" and "difficulty bc = d" and "miningReward bc = r"
    by simp_all
  from mm(1) show "0 \<le> d" .
qed

lemma addTransaction_chain:
  assumes "addTransaction H V bc t = (res, bc')"
  shows "chain bc' = chain bc" and "difficulty bc' = difficulty bc"
    and "miningReward bc' = miningReward bc"
  using assms by (auto simp: addTransaction_def split: if_splits)

lemma ledger_invariant_pending [simp]:
  "ledger_invariant (bc\<lparr>pendingTransactions := p\<rparr>) = ledger_invariant bc"
  by (simp add: ledger_invariant_def)

lemma ledger_invariant_same_chain:
  "chain bc' = chain bc \<Longrightarrow> difficulty bc' = difficulty bc
     \<Longrightarrow> ledger_invariant bc \<Longrightarrow> ledger_invariant bc'"
  by (simp add: ledger_invariant_def)

lemma ledger_invariant_append:
  assumes inv: "ledger_invariant bc"
    and link: "previousHash blk = hash (last (chain bc))"
    and pow: "startsWith (hash blk) (replicate (nat (difficulty bc)) CHR ''0'')"
  shows "ledger_invariant (bc\<lparr>chain := chain bc @ [blk], pendingTransactions := p\<rparr>)"
proof -
  from inv have ne: "chain bc \<noteq> []" by (simp add: ledger_invariant_def)
  have "previousHash ((chain bc @ [blk]) ! i) = hash ((chain bc @ [blk]) ! (i - 1))
        \<and> startsWith (hash ((chain bc @ [blk]) ! i)) (replicate (nat (difficulty bc)) CHR ''0'')"
    if i: "i \<in> {1 ..< length (chain bc @ [blk])}" for i
  proof (cases "i < length (chain bc)")
    case True
    with i inv show ?thesis by (auto simp: ledger_invariant_def nth_append)
  next
    case False
    with i have "i = length (chain bc)" by simp
    with ne link pow show ?thesis by (simp add: nth_append last_conv_nth)
  qed
  with inv ne show ?thesis by (simp add: ledger_invariant_def nth_append)
qed

text \<open>
  C1. Every ledger that the constructor (with any difficulty and reward) followed by
  any finite sequence of \<^verbatim>\<open>addTransaction\<close> and \<^verbatim>\<open>minePendingTransactions\<close> calls
  produces satisfies the ledger invariant.
\<close>

theorem reachable_ledger_invariant:
  assumes "reachable H V bc"
  shows "ledger_invariant bc"
  using assms
proof (induction rule: reachable.induct)
  case (constructed d r now bc)
  from Blockchain_new_result(1,3) [OF constructed] obtain g where
    "chain bc = [g]" "previousHash g = ''0''" "transactions g = []"
    by blast
  then show ?case by (simp add: ledger_invariant_def)
next
  case (added bc t res bc')
  from addTransaction_chain(1,2) [OF added(2)] added(3) show ?case
    by (rule ledger_invariant_same_chain)
next
  case (mined bc minerAddress now1 now2 res bc')
  show ?case
  proof (cases res)
    case (Inl e)
    with mined(2) have "minePendingTransactions H bc minerAddress now1 now2 = Some (Inl e, bc')"
      by simp
    from minePendingTransactions_failure(1,2) [OF this] mined(3) show ?thesis
      by (rule ledger_invariant_same_chain)
  next
    case (Inr blk)
    with mined(2) have "minePendingTransactions H bc minerAddress now1 now2 = Some (Inr blk, bc')"
      by simp
    note s = minePendingTransactions_success [OF this]
    from ledger_invariant_append [OF mined(3) s(8) s(10)] show ?thesis
      unfolding s(4) .
  qed
qed


lemma sampleLedger_reachable:
  "reachable sampleHash sampleVerify (sampleLedger\<lparr>pendingTransactions := [aliceToBob 60]\<rparr>)"
proof -
  have "reachable sampleHash sampleVerify sampleNew"
    by (rule reachable.constructed [OF sample_constructed])
  then have "reachable sampleHash sampleVerify sampleLedger"
    by (rule reachable.mined [OF _ sample_mined])
  moreover have "addTransaction sampleHash sampleVerify sampleLedger (aliceToBob 60)
      = (Inr True, sampleLedger\<lparr>pendingTransactions := [aliceToBob 60]\<rparr>)"
    by (simp add: addTransaction_def aliceToBob_valid aliceToBob_fields sampleLedger_balance
          sampleLedger_pending)
  ultimately show ?thesis
    by (rule reachable.added)
qed

theorem reachable_ledger_invariant_witness:
  "ledger_invariant (sampleLedger\<lparr>pendingTransactions := [aliceToBob 60]\<rparr>)
   \<and> length (chain (sampleLedger\<lparr>pendingTransactions := [aliceToBob 60]\<rparr>)) = 2"
  using reachable_ledger_invariant [OF sampleLedger_reachable]
  by (simp add: sampleLedger_def)

section \<open>Loading a serialized ledger\<close>

text \<open>
  \<open>Block_fromJSON\<close> against the field-by-field reading: the block is rebuilt exactly
  when the six fields are there with the right types and the stored hash is the digest
  of the other five; every other outcome is \<^verbatim>\<open>InvalidBlockError\<close>.
\<close>

lemma Block_fromJSON_stored:
  "Block_fromJSON H c =
     (case storedBlock c of
        None \<Rightarrow> Inl InvalidBlockError
      | Some b \<Rightarrow> if hash b \<noteq> Block_calculateHash H id b then Inl InvalidBlockError else Inr b)"
  by (auto simp: Block_fromJSON_def storedBlock_def Block_new_def Let_def Block_calculateHash_def
           split: option.splits Option.bind_splits)

lemma map_result_Inr:
  "map_result f xs = Inr ys \<longleftrightarrow> map f xs = map Inr ys"
proof (induction xs arbitrary: ys)
  case Nil
  then show ?case by auto
next
  case (Cons x xs)
  show ?case
  proof (cases ys)
    case Nil
    then show ?thesis by (simp split: sum.splits)
  next
    case (Cons y ys')
    with Cons.IH [of ys'] show ?thesis
      by (cases "f x"; cases "map_result f xs") auto
  qed
qed

lemma map_result_Inl:
  "map_result f xs = Inl e \<Longrightarrow> \<exists>x \<in> set xs. f x = Inl e"
  by (induction xs) (auto split: sum.splits)

lemma map_result_fails:
  "x \<in> set xs \<Longrightarrow> f x = Inl e \<Longrightarrow> \<exists>e'. map_result f xs = Inl e'"
  by (induction xs) (auto split: sum.splits)

lemma map_Block_fromJSON_fails:
  assumes "c \<in> set cs" and "\<forall>b. Block_fromJSON H c \<noteq> Inr b"
  shows "map_result (Block_fromJSON H) cs = Inl InvalidBlockError"
proof -
  from assms(2) obtain e where "Block_fromJSON H c = Inl e"
    by (cases "Block_fromJSON H c") auto
  from map_result_fails [where f = "Block_fromJSON H", OF assms(1) this] obtain e' where
    e': "map_result (Block_fromJSON H) cs = Inl e'" by blast
  from map_result_Inl [OF e'] obtain x where "Block_fromJSON H x = Inl e'" by blast
  then have "e' = InvalidBlockError"
    by (simp add: Block_fromJSON_stored split: option.splits if_splits)
  with e' show ?thesis by simp
qed

lemma Blockchain_fromJSON_unfold:
  assumes "isObject j"
    and "asArray (getProp j ''chain'') = Some cs"
    and "asArray (getProp j ''pendingTransactions'') = Some ps"
    and "asNumber (getProp j ''difficulty'') = Some d"
    and "asNumber (getProp j ''miningReward'') = Some r"
    and "Blockchain_new H id d r now = Some (Inr g)"
  shows "Blockchain_fromJSON H j now =
     (case map_result (Block_fromJSON H) cs of
        Inl e \<Rightarrow> Some (Inl e)
      | Inr blocks \<Rightarrow> Some (Inr (g\<lparr>chain := blocks, pendingTransactions := ps\<rparr>)))"
  using assms by (simp add: Blockchain_fromJSON_def)

lemma Blockchain_fromJSON_success:
  assumes "Blockchain_fromJSON H j now = Some (Inr bc)"
  shows "isObject j"
    and "asArray (getProp j ''pendingTransactions'') = Some (pendingTransactions bc)"
    and "asNumber (getProp j ''difficulty'') = Some (difficulty bc)"
    and "asNumber (getProp j ''miningReward'') = Some (miningReward bc)"
    and "\<exists>g. Blockchain_new H id (difficulty bc) (miningReward bc) now = Some (Inr g)"
    and "\<exists>cs. asArray (getProp j ''chain'') = Some cs
              \<and> map (Block_fromJSON H) cs = map Inr (chain bc)"
proof -
  from assms show o: "isObject j"
    by (auto simp: Blockchain_fromJSON_def split: if_splits)
  from assms o obtain cs where cs: "asArray (getProp j ''chain'') = Some cs"
    by (cases "asArray (getProp j ''chain'')") (auto simp: Blockchain_fromJSON_def)
  from assms o cs obtain ps where ps: "asArray (getProp j ''pendingTransactions'') = Some ps"
    by (cases "asArray (getProp j ''pendingTransactions'')") (auto simp: Blockchain_fromJSON_def)
  from assms o cs ps obtain d where d: "asNumber (getProp j ''difficulty'') = Some d"
    by (cases "asNumber (getProp j ''difficulty'')") (auto simp: Blockchain_fromJSON_def)
  from assms o cs ps d obtain r where r: "asNumber (getProp j ''miningReward'') = Some r"
    by (cases "asNumber (getProp j ''miningReward'')") (auto simp: Blockchain_fromJSON_def)
  from assms o cs ps d r obtain g where g: "Blockchain_new H id d r now = Some (Inr g)"
    by (cases "Blockchain_new H id d r now")
       (auto simp: Blockchain_fromJSON_def split: sum.splits)
  note u = assms [unfolded Blockchain_fromJSON_unfold [OF o cs ps d r g]]
  then obtain blocks where b: "map_result (Block_fromJSON H) cs = Inr blocks"
    and bc: "bc = g\<lparr>chain := blocks, pendingTransactions := ps\<rparr>"
    by (cases "map_result (Block_fromJSON H) cs") auto
  note gg = Blockchain_new_result(3,4) [OF g]
  from bc ps show "asArray (getProp j ''pendingTransactions'') = Some (pendingTransactions bc)"
    by simp
  from bc d gg show "asNumber (getProp j ''difficulty'') = Some (difficulty bc)" by simp
  from bc r gg show "asNumber (getProp j ''miningReward'') = Some (miningReward bc)" by simp
  from bc g gg show "\<exists>g. Blockchain_new H id (difficulty bc) (miningReward bc) now = Some (Inr g)"
    by auto
  from b bc cs show "\<exists>cs. asArray (getProp j ''chain'') = Some cs
              \<and> map (Block_fromJSON H) cs = map Inr (chain bc)"
    by (simp add: map_result_Inr)
qed

lemma Block_fromJSON_Inr_iff:
  "Block_fromJSON H c = Inr b \<longleftrightarrow> storedBlock c = Some b \<and> hash b = Block_calculateHash H id b"
  by (auto simp: Block_fromJSON_stored split: option.splits)

lemma map_Block_fromJSON_Inr:
  "map (Block_fromJSON H) cs = map Inr bs \<longleftrightarrow>
     map storedBlock cs = map Some bs \<and> (\<forall>b \<in> set bs. hash b = Block_calculateHash H id b)"
proof (induction cs arbitrary: bs)
  case Nil
  then show ?case by auto
next
  case (Cons c cs)
  show ?case
  proof (cases bs)
    case Nil
    then show ?thesis by simp
  next
    case (Cons b bs')
    with Cons.IH [of bs'] show ?thesis
      by (auto simp: Block_fromJSON_Inr_iff id_def)
  qed
qed

lemma Blockchain_fromJSON_malformed:
  assumes "\<not> isObject j \<or> asArray (getProp j ''chain'') = None
        \<or> asArray (getProp j ''pendingTransactions'') = None
        \<or> asNumber (getProp j ''difficulty'') = None
        \<or> asNumber (getProp j ''miningReward'') = None"
  shows "Blockchain_fromJSON H j now = Some (Inl Error)"
  using assms by (auto simp: Blockchain_fromJSON_def split: option.splits)

lemma Blockchain_fromJSON_shaped:
  assumes "isObject j"
    and "asArray (getProp j ''chain'') = Some cs"
    and "asArray (getProp j ''pendingTransactions'') = Some ps"
    and "asNumber (getProp j ''difficulty'') = Some d"
    and "asNumber (getProp j ''miningReward'') = Some r"
    and "Blockchain_new H id d r now = Some (Inr g)"
  shows "if \<exists>c \<in> set cs. storedBlock c = None
                  \<or> hash (the (storedBlock c)) \<noteq> Block_calculateHash H id (the (storedBlock c))
         then Blockchain_fromJSON H j now = Some (Inl InvalidBlockError)
         else Blockchain_fromJSON H j now
                 = Some (Inr \<lparr>chain = map (the \<circ> storedBlock) cs, pendingTransactions = ps,
                              difficulty = d, miningReward = r\<rparr>)"
proof -
  note u = Blockchain_fromJSON_unfold [OF assms]
  note gg = Blockchain_new_result(3,4) [OF assms(6)]
  let ?bad = "\<exists>c \<in> set cs. storedBlock c = None
                  \<or> hash (the (storedBlock c)) \<noteq> Block_calculateHash H id (the (storedBlock c))"
  show ?thesis
  proof (cases ?bad)
    case True
    then obtain c where c: "c \<in> set cs" and
      "storedBlock c = None
         \<or> hash (the (storedBlock c)) \<noteq> Block_calculateHash H id (the (storedBlock c))"
      by blast
    then have "\<forall>b. Block_fromJSON H c \<noteq> Inr b"
      by (auto simp: Block_fromJSON_Inr_iff)
    from map_Block_fromJSON_fails [OF c this] u True show ?thesis by simp
  next
    case False
    then have ok: "\<And>c. c \<in> set cs \<Longrightarrow>
        Block_fromJSON H c = Inr (the (storedBlock c))"
      by (auto simp: Block_fromJSON_stored split: option.splits)
    then have "map (Block_fromJSON H) cs = map Inr (map (the \<circ> storedBlock) cs)"
      by simp
    then have "map_result (Block_fromJSON H) cs = Inr (map (the \<circ> storedBlock) cs)"
      by (simp only: map_result_Inr)
    with u False gg show ?thesis
      by (cases g) simp
  qed
qed

lemma reload_rejects_bad_block:
  assumes "isObject j"
    and "asArray (getProp j ''chain'') = Some cs"
    and "asArray (getProp j ''pendingTransactions'') = Some ps"
    and "asNumber (getProp j ''difficulty'') = Some d"
    and "asNumber (getProp j ''miningReward'') = Some r"
    and "Blockchain_new H id d r now = Some (Inr g)"
    and "m < length cs"
    and "storedBlock (cs ! m) = Some sb"
    and "hash sb \<noteq> Block_calculateHash H id sb"
  shows "Blockchain_fromJSON H j now = Some (Inl InvalidBlockError)"
proof -
  from assms(7,8,9) have "\<exists>c \<in> set cs. storedBlock c = None
      \<or> hash (the (storedBlock c)) \<noteq> Block_calculateHash H id (the (storedBlock c))"
    by (intro bexI [of _ "cs ! m"]) simp_all
  with Blockchain_fromJSON_shaped [OF assms(1-6)] show ?thesis by simp
qed

text \<open>
  C8, as the code has it. When \<^verbatim>\<open>Blockchain.fromJSON\<close> returns a ledger, the value is an
  object, every block of the chain is the one its serialized form stores and its stored
  hash is its recomputed digest, and pending transactions, difficulty and mining reward
  are the serialized ones. A value that is not an object, or whose \<open>chain\<close> or
  \<open>pendingTransactions\<close> is not an array, or whose \<open>difficulty\<close> or \<open>miningReward\<close> is
  not a number, fails with \<^verbatim>\<open>Error\<close>. Otherwise, when the constructor's genesis search
  at the stored difficulty returns: a block that is not an object, or lacks one of its
  six fields, or has one of the wrong type, or whose stored hash is not its digest, makes
  the load fail with \<^verbatim>\<open>InvalidBlockError\<close>; without such a block the load succeeds,
  whatever the elements of \<open>pendingTransactions\<close> and of the blocks' \<open>transactions\<close> are.
\<close>

theorem fromJSON_validates:
  "(Blockchain_fromJSON H j now = Some (Inr bc) \<longrightarrow>
      isObject j
      \<and> (\<exists>cs. asArray (getProp j ''chain'') = Some cs
               \<and> map storedBlock cs = map Some (chain bc))
      \<and> (\<forall>b \<in> set (chain bc). hash b = Block_calculateHash H id b)
      \<and> asArray (getProp j ''pendingTransactions'') = Some (pendingTransactions bc)
      \<and> asNumber (getProp j ''difficulty'') = Some (difficulty bc)
      \<and> asNumber (getProp j ''miningReward'') = Some (miningReward bc))
   \<and> (\<not> isObject j \<or> asArray (getProp j ''chain'') = None
        \<or> asArray (getProp j ''pendingTransactions'') = None
        \<or> asNumber (getProp j ''difficulty'') = None
        \<or> asNumber (getProp j ''miningReward'') = None
      \<longrightarrow> Blockchain_fromJSON H j now = Some (Inl Error))
   \<and> (isObject j \<and> asArray (getProp j ''chain'') = Some cs
        \<and> asArray (getProp j ''pendingTransactions'') = Some ps
        \<and> asNumber (getProp j ''difficulty'') = Some d
        \<and> asNumber (getProp j ''miningReward'') = Some r
        \<and> Blockchain_new H id d r now = Some (Inr g)
      \<longrightarrow> (if \<exists>c \<in> set cs. storedBlock c = None
                  \<or> hash (the (storedBlock c)) \<noteq> Block_calculateHash H id (the (storedBlock c))
            then Blockchain_fromJSON H j now = Some (Inl InvalidBlockError)
            else Blockchain_fromJSON H j now
                 = Some (Inr \<lparr>chain = map (the \<circ> storedBlock) cs, pendingTransactions = ps,
                              difficulty = d, miningReward = r\<rparr>)))"
proof (intro conjI impI)
  assume ok: "Blockchain_fromJSON H j now = Some (Inr bc)"
  note s = Blockchain_fromJSON_success [OF ok]
  from s(6) obtain cs' where cs': "asArray (getProp j ''chain'') = Some cs'"
    and m: "map (Block_fromJSON H) cs' = map Inr (chain bc)" by blast
  from m have m': "map storedBlock cs' = map Some (chain bc)"
    and h: "\<forall>b \<in> set (chain bc). hash b = Block_calculateHash H id b"
    by (simp_all add: map_Block_fromJSON_Inr)
  from s(1) show "isObject j" .
  from cs' m' show "\<exists>cs. asArray (getProp j ''chain'') = Some cs
               \<and> map storedBlock cs = map Some (chain bc)" by blast
  from h show "\<forall>b \<in> set (chain bc). hash b = Block_calculateHash H id b" .
  from s(2) show "asArray (getProp j ''pendingTransactions'') = Some (pendingTransactions bc)" .
  from s(3) show "asNumber (getProp j ''difficulty'') = Some (difficulty bc)" .
  from s(4) show "asNumber (getProp j ''miningReward'') = Some (miningReward bc)" .
next
  assume "\<not> isObject j \<or> asArray (getProp j ''chain'') = None
        \<or> asArray (getProp j ''pendingTransactions'') = None
        \<or> asNumber (getProp j ''difficulty'') = None
        \<or> asNumber (getProp j ''miningReward'') = None"
  then show "Blockchain_fromJSON H j now = Some (Inl Error)"
    by (rule Blockchain_fromJSON_malformed)
next
  assume a: "isObject j \<and> asArray (getProp j ''chain'') = Some cs
        \<and> asArray (getProp j ''pendingTransactions'') = Some ps
        \<and> asNumber (getProp j ''difficulty'') = Some d
        \<and> asNumber (getProp j ''miningReward'') = Some r
        \<and> Blockchain_new H id d r now = Some (Inr g)"
  then have "isObject j" "asArray (getProp j ''chain'') = Some cs"
    "asArray (getProp j ''pendingTransactions'') = Some ps"
    "asNumber (getProp j ''difficulty'') = Some d"
    "asNumber (getProp j ''miningReward'') = Some r"
    "Blockchain_new H id d r now = Some (Inr g)"
    by blast+
  then show "if \<exists>c \<in> set cs. storedBlock c = None
                  \<or> hash (the (storedBlock c)) \<noteq> Block_calculateHash H id (the (storedBlock c))
            then Blockchain_fromJSON H j now = Some (Inl InvalidBlockError)
            else Blockchain_fromJSON H j now
                 = Some (Inr \<lparr>chain = map (the \<circ> storedBlock) cs, pendingTransactions = ps,
                              difficulty = d, miningReward = r\<rparr>)"
    by (rule Blockchain_fromJSON_shaped)
qed

section \<open>Validation of the chain\<close>

text \<open>The loop of \<^verbatim>\<open>isChainValid\<close> checks the blocks from index 1 on, and only them.\<close>

lemma validate_loop_step:
  "validate_loop H toJ target ch i =
     (if i < length ch then
        hash (ch ! i) = Block_calculateHash H toJ (ch ! i)
        \<and> previousHash (ch ! i) = hash (ch ! (i - 1))
        \<and> startsWith (hash (ch ! i)) target
        \<and> validate_loop H toJ target ch (i + 1)
      else True)"
  by (subst validate_loop.simps) (simp add: Let_def)

lemma validate_loop_iff:
  "validate_loop H toJ target ch i \<longleftrightarrow>
     (\<forall>j. i \<le> j \<and> j < length ch \<longrightarrow>
        hash (ch ! j) = Block_calculateHash H toJ (ch ! j)
        \<and> previousHash (ch ! j) = hash (ch ! (j - 1))
        \<and> startsWith (hash (ch ! j)) target)"
proof (induction "length ch - i" arbitrary: i)
  case 0
  then have "\<not> i < length ch" by simp
  then show ?case by (subst validate_loop_step) auto
next
  case (Suc n)
  then have lt: "i < length ch" and n: "n = length ch - (i + 1)" by simp_all
  let ?ok = "\<lambda>j. hash (ch ! j) = Block_calculateHash H toJ (ch ! j)
        \<and> previousHash (ch ! j) = hash (ch ! (j - 1))
        \<and> startsWith (hash (ch ! j)) target"
  have "validate_loop H toJ target ch i \<longleftrightarrow> ?ok i \<and> validate_loop H toJ target ch (i + 1)"
    using lt by (subst validate_loop_step) simp
  also have "\<dots> \<longleftrightarrow> ?ok i \<and> (\<forall>j. i + 1 \<le> j \<and> j < length ch \<longrightarrow> ?ok j)"
    by (simp only: Suc.hyps(1) [OF n])
  also have "\<dots> \<longleftrightarrow> (\<forall>j. i \<le> j \<and> j < length ch \<longrightarrow> ?ok j)"
  proof
    assume a: "?ok i \<and> (\<forall>j. i + 1 \<le> j \<and> j < length ch \<longrightarrow> ?ok j)"
    show "\<forall>j. i \<le> j \<and> j < length ch \<longrightarrow> ?ok j"
    proof (intro allI impI)
      fix j assume j: "i \<le> j \<and> j < length ch"
      show "?ok j"
      proof (cases "j = i")
        case True
        with a show ?thesis by blast
      next
        case False
        with j have "i + 1 \<le> j \<and> j < length ch" by simp
        with a show ?thesis by blast
      qed
    qed
  next
    assume a: "\<forall>j. i \<le> j \<and> j < length ch \<longrightarrow> ?ok j"
    with lt have "?ok i" by blast
    moreover have "\<forall>j. i + 1 \<le> j \<and> j < length ch \<longrightarrow> ?ok j"
    proof (intro allI impI)
      fix j assume "i + 1 \<le> j \<and> j < length ch"
      then have "i \<le> j \<and> j < length ch" by simp
      with a show "?ok j" by blast
    qed
    ultimately show "?ok i \<and> (\<forall>j. i + 1 \<le> j \<and> j < length ch \<longrightarrow> ?ok j)" by blast
  qed
  finally show ?case .
qed

lemma isChainValid_iff:
  assumes "0 \<le> difficulty bc"
  shows "isChainValid H toJ bc =
     Inr (\<forall>j. 1 \<le> j \<and> j < length (chain bc) \<longrightarrow>
        hash (chain bc ! j) = Block_calculateHash H toJ (chain bc ! j)
        \<and> previousHash (chain bc ! j) = hash (chain bc ! (j - 1))
        \<and> startsWith (hash (chain bc ! j)) (replicate (nat (difficulty bc)) CHR ''0''))"
  using assms by (simp add: isChainValid_def repeat_zero validate_loop_iff)

lemma tamper_hash:
  "\<not> isHashChange f \<Longrightarrow> hash (tamper f b) = hash b"
  by (cases f) simp_all

lemma tamper_hash_changed:
  "isHashChange f \<Longrightarrow> tamper f b \<noteq> b \<Longrightarrow> hash (tamper f b) \<noteq> hash b"
  by (cases f; cases b) auto

lemma tampered_chain_invalid:
  assumes inv: "ledger_invariant bc"
    and wf: "\<forall>i \<in> {1 ..< length (chain bc)}.
               hash (chain bc ! i) = Block_calculateHash H toJ (chain bc ! i)"
    and d: "0 \<le> difficulty bc"
    and k: "k + 1 < length (chain bc)"
    and ch: "tamper f (chain bc ! k) \<noteq> chain bc ! k"
    and det: "isHashChange f
              \<or> (1 \<le> k \<and> Block_calculateHash H toJ (tamper f (chain bc ! k))
                             \<noteq> Block_calculateHash H toJ (chain bc ! k))"
  shows "isChainValid H toJ (bc\<lparr>chain := (chain bc)[k := tamper f (chain bc ! k)]\<rparr>) = Inr False"
proof -
  let ?b' = "tamper f (chain bc ! k)"
  let ?ch' = "(chain bc)[k := ?b']"
  have "\<exists>j. 1 \<le> j \<and> j < length ?ch' \<and>
          \<not> (hash (?ch' ! j) = Block_calculateHash H toJ (?ch' ! j)
              \<and> previousHash (?ch' ! j) = hash (?ch' ! (j - 1))
              \<and> startsWith (hash (?ch' ! j)) (replicate (nat (difficulty bc)) CHR ''0''))"
  proof (cases "isHashChange f")
    case True
    from tamper_hash_changed [OF True ch] have ne: "hash ?b' \<noteq> hash (chain bc ! k)" .
    from inv k have "previousHash (chain bc ! (k + 1)) = hash (chain bc ! k)"
      by (simp add: ledger_invariant_def)
    with ne k have "previousHash (?ch' ! (k + 1)) \<noteq> hash (?ch' ! (k + 1 - 1))"
      by simp
    with k show ?thesis
      by (intro exI [of _ "k + 1"]) simp
  next
    case False
    with det have k1: "1 \<le> k"
      and ne: "Block_calculateHash H toJ ?b' \<noteq> Block_calculateHash H toJ (chain bc ! k)"
      by simp_all
    from wf k k1 have "hash (chain bc ! k) = Block_calculateHash H toJ (chain bc ! k)"
      by simp
    with ne tamper_hash [OF False, of "chain bc ! k"]
    have "hash ?b' \<noteq> Block_calculateHash H toJ ?b'" by simp
    with k k1 show ?thesis
      by (intro exI [of _ k]) simp
  qed
  with d show ?thesis
    by (simp add: isChainValid_iff del: length_list_update)
qed

lemma genesis_fields_not_validated:
  assumes "\<not> isHashChange f"
  shows "isChainValid H toJ (bc\<lparr>chain := (chain bc)[0 := tamper f (chain bc ! 0)]\<rparr>)
           = isChainValid H toJ bc"
proof -
  let ?ch' = "(chain bc)[0 := tamper f (chain bc ! 0)]"
  have h: "hash (?ch' ! j) = hash (chain bc ! j)" if "j < length (chain bc)" for j
    using that assms by (cases j) (simp_all add: tamper_hash)
  have "validate_loop H toJ target ?ch' 1 = validate_loop H toJ target (chain bc) 1" for target
    unfolding validate_loop_iff
    by (intro all_cong1 imp_cong refl) (auto simp: h nth_list_update)
  then show ?thesis by (simp add: isChainValid_def split: sum.split)
qed

text \<open>
  C2, as the code has it. In a ledger that satisfies the invariant, whose blocks from
  index 1 on store their digests and whose difficulty is not negative, changing in
  memory one field of \<open>chain[k]\<close>, \<open>k < N - 1\<close>, makes \<^verbatim>\<open>isChainValid\<close> return false when
  the field is the hash, and when \<open>k \<ge> 1\<close> and the change alters the digest of the block.
  For data at rest, a serialized block whose stored hash is not its recomputed digest
  makes the reload itself fail with \<^verbatim>\<open>InvalidBlockError\<close> (when the constructor's genesis
  search returns), so that no ledger is there to validate.
\<close>

theorem tamper_detected:
  "(ledger_invariant bc
      \<and> (\<forall>i \<in> {1 ..< length (chain bc)}.
            hash (chain bc ! i) = Block_calculateHash H toJ (chain bc ! i))
      \<and> 0 \<le> difficulty bc
      \<and> k + 1 < length (chain bc)
      \<and> tamper f (chain bc ! k) \<noteq> chain bc ! k
      \<and> (isHashChange f
           \<or> (1 \<le> k \<and> Block_calculateHash H toJ (tamper f (chain bc ! k))
                          \<noteq> Block_calculateHash H toJ (chain bc ! k)))
     \<longrightarrow> isChainValid H toJ (bc\<lparr>chain := (chain bc)[k := tamper f (chain bc ! k)]\<rparr>) = Inr False)
   \<and> (isObject j
      \<and> asArray (getProp j ''chain'') = Some cs
      \<and> asArray (getProp j ''pendingTransactions'') = Some ps
      \<and> asNumber (getProp j ''difficulty'') = Some d
      \<and> asNumber (getProp j ''miningReward'') = Some r
      \<and> Blockchain_new H' id d r now = Some (Inr g)
      \<and> m < length cs
      \<and> storedBlock (cs ! m) = Some sb
      \<and> hash sb \<noteq> Block_calculateHash H' id sb
     \<longrightarrow> Blockchain_fromJSON H' j now = Some (Inl InvalidBlockError))"
proof (intro conjI impI)
  assume "ledger_invariant bc
      \<and> (\<forall>i \<in> {1 ..< length (chain bc)}.
            hash (chain bc ! i) = Block_calculateHash H toJ (chain bc ! i))
      \<and> 0 \<le> difficulty bc
      \<and> k + 1 < length (chain bc)
      \<and> tamper f (chain bc ! k) \<noteq> chain bc ! k
      \<and> (isHashChange f
           \<or> (1 \<le> k \<and> Block_calculateHash H toJ (tamper f (chain bc ! k))
                          \<noteq> Block_calculateHash H toJ (chain bc ! k)))"
  then have "ledger_invariant bc"
    "\<forall>i \<in> {1 ..< length (chain bc)}.
            hash (chain bc ! i) = Block_calculateHash H toJ (chain bc ! i)"
    "0 \<le> difficulty bc" "k + 1 < length (chain bc)"
    "tamper f (chain bc ! k) \<noteq> chain bc ! k"
    "isHashChange f
           \<or> (1 \<le> k \<and> Block_calculateHash H toJ (tamper f (chain bc ! k))
                          \<noteq> Block_calculateHash H toJ (chain bc ! k))"
    by blast+
  then show "isChainValid H toJ (bc\<lparr>chain := (chain bc)[k := tamper f (chain bc ! k)]\<rparr>) = Inr False"
    by (rule tampered_chain_invalid)
next
  assume "isObject j
      \<and> asArray (getProp j ''chain'') = Some cs
      \<and> asArray (getProp j ''pendingTransactions'') = Some ps
      \<and> asNumber (getProp j ''difficulty'') = Some d
      \<and> asNumber (getProp j ''miningReward'') = Some r
      \<and> Blockchain_new H' id d r now = Some (Inr g)
      \<and> m < length cs
      \<and> storedBlock (cs ! m) = Some sb
      \<and> hash sb \<noteq> Block_calculateHash H' id sb"
  then have "isObject j" "asArray (getProp j ''chain'') = Some cs"
    "asArray (getProp j ''pendingTransactions'') = Some ps"
    "asNumber (getProp j ''difficulty'') = Some d"
    "asNumber (getProp j ''miningReward'') = Some r"
    "Blockchain_new H' id d r now = Some (Inr g)"
    "m < length cs" "storedBlock (cs ! m) = Some sb"
    "hash sb \<noteq> Block_calculateHash H' id sb"
    by blast+
  then show "Blockchain_fromJSON H' j now = Some (Inl InvalidBlockError)"
    by (rule reload_rejects_bad_block)
qed

section \<open>The sample ledgers\<close>

lemma mine_zero_difficulty:
  "Miner_mine H toJ 0 b =
     Some (Inr (\<lparr>MiningResult.nonce = nonce b, MiningResult.hash = Block_calculateHash H toJ b,
                  attempts = 1\<rparr>,
                b\<lparr>hash := Block_calculateHash H toJ b\<rparr>))"
  by (simp add: Miner_mine_def repeat_zero mine_loop.simps startsWith_def Let_def)

lemma Block_new_rehash:
  "(Block_new H toJ i ts txs prev n)\<lparr>hash := Block_calculateHash H toJ (Block_new H toJ i ts txs prev n)\<rparr>
     = Block_new H toJ i ts txs prev n"
  by (simp add: Block_new_def Let_def Block_calculateHash_def)

lemma easy_constructed:
  "Blockchain_new H Transaction_toJSON 0 100 5
     = Some (Inr \<lparr>chain = [freshGenesis H], pendingTransactions = [], difficulty = 0,
                  miningReward = 100\<rparr>)"
  by (simp add: Blockchain_new_def createGenesisBlock_def mine_zero_difficulty freshGenesis_def
        Block_new_rehash)

lemma easy_mined:
  "minePendingTransactions H
      \<lparr>chain = [freshGenesis H], pendingTransactions = [], difficulty = 0, miningReward = 100\<rparr>
      ''alice'' 11 12
     = Some (Inr (chain (easyLedger H) ! 1), easyLedger H)"
  by (simp add: minePendingTransactions_unfold mine_zero_difficulty easyLedger_def Block_new_rehash)

lemma easyLedger_reachable: "reachable H V (easyLedger H)"
  by (rule reachable.mined [OF reachable.constructed [OF easy_constructed] easy_mined])

lemma easyLedger_invariant: "ledger_invariant (easyLedger H)"
  by (simp add: ledger_invariant_def easyLedger_def freshGenesis_def startsWith_def)

lemma easyLedger_valid: "isChainValid H Transaction_toJSON (easyLedger H) = Inr True"
  by (simp add: isChainValid_def repeat_zero easyLedger_def validate_loop_step startsWith_def)

lemma sampleLedger3_invariant: "ledger_invariant sampleLedger3"
  by code_simp

lemma sampleLedger3_wf:
  "\<forall>i \<in> {1 ..< length (chain sampleLedger3)}.
     hash (chain sampleLedger3 ! i)
       = Block_calculateHash sampleHash Transaction_toJSON (chain sampleLedger3 ! i)"
  by code_simp

section \<open>Runs of the balance\<close>

lemma rounding_constructed:
  "Blockchain_new H Transaction_toJSON 0 9007199254740992 5
     = Some (Inr \<lparr>chain = [freshGenesis H], pendingTransactions = [], difficulty = 0,
                  miningReward = 9007199254740992\<rparr>)"
  by (simp add: Blockchain_new_def createGenesisBlock_def mine_zero_difficulty freshGenesis_def
        Block_new_rehash)

lemma rounding_mined1:
  "minePendingTransactions H
      \<lparr>chain = [freshGenesis H], pendingTransactions = [], difficulty = 0,
         miningReward = 9007199254740992\<rparr>
      ''alice'' 11 12
     = Some (Inr (roundingBlock1 H),
             \<lparr>chain = [freshGenesis H, roundingBlock1 H], pendingTransactions = [],
                difficulty = 0, miningReward = 9007199254740992\<rparr>)"
  by (simp add: minePendingTransactions_unfold mine_zero_difficulty roundingBlock1_def
        rewardTo_def Block_new_rehash)

lemma rounding_mined2:
  "minePendingTransactions H
      \<lparr>chain = [freshGenesis H, roundingBlock1 H], pendingTransactions = [],
         difficulty = 0, miningReward = 9007199254740992\<rparr>
      ''bob'' 13 14
     = Some (Inr (roundingBlock2 H),
             \<lparr>chain = [freshGenesis H, roundingBlock1 H, roundingBlock2 H],
                pendingTransactions = [], difficulty = 0, miningReward = 9007199254740992\<rparr>)"
  by (simp add: minePendingTransactions_unfold mine_zero_difficulty roundingBlock2_def
        rewardTo_def Block_new_rehash)

lemma rounding_mined3:
  "minePendingTransactions H
      \<lparr>chain = [freshGenesis H, roundingBlock1 H, roundingBlock2 H],
         pendingTransactions = roundingPool, difficulty = 0,
         miningReward = 9007199254740992\<rparr>
      ''carol'' 41 42
     = Some (Inr (roundingBlock3 H), roundingLedger H)"
  by (simp add: minePendingTransactions_unfold mine_zero_difficulty roundingBlock3_def
        roundingLedger_def rewardTo_def Block_new_rehash)

lemma rounding_transactions [simp]:
  "transactions (freshGenesis H) = []"
  "transactions (roundingBlock1 H) = [rewardTo ''alice'' 11]"
  "transactions (roundingBlock2 H) = [rewardTo ''bob'' 13]"
  "transactions (roundingBlock3 H) = roundingPool @ [rewardTo ''carol'' 41]"
  by (simp_all add: freshGenesis_def roundingBlock1_def roundingBlock2_def roundingBlock3_def)

lemma rounding_balances:
  "getBalanceOfAddress
      \<lparr>chain = [freshGenesis H, roundingBlock1 H, roundingBlock2 H], pendingTransactions = p,
         difficulty = 0, miningReward = 9007199254740992\<rparr> ''alice'' = 9007199254740992"
  "getBalanceOfAddress
      \<lparr>chain = [freshGenesis H, roundingBlock1 H, roundingBlock2 H], pendingTransactions = p,
         difficulty = 0, miningReward = 9007199254740992\<rparr> ''bob'' = 9007199254740992"
  by (simp_all add: getBalanceOfAddress_def balance_tx_def rewardTo_def Number_add_def
        roundToDouble_two_53)

lemma bobToAlice_valid: "isValid H sampleVerify (bobToAlice n)"
  by (simp add: isValid_def bobToAlice_def sampleVerify_def)

lemma aliceToBob_valid_any: "isValid H sampleVerify (aliceToBob n)"
  by (simp add: isValid_def aliceToBob_def sampleVerify_def)

lemma bobToAlice_fields:
  "sender (bobToAlice n) = ''bob''" "amount (bobToAlice n) = 1"
  by (simp_all add: bobToAlice_def)

lemma roundingLedger_reachable: "reachable H sampleVerify (roundingLedger H)"
proof -
  let ?L = "\<lambda>p. \<lparr>chain = [freshGenesis H, roundingBlock1 H, roundingBlock2 H],
                  pendingTransactions = p, difficulty = 0,
                  miningReward = 9007199254740992\<rparr>"
  have "reachable H sampleVerify (?L [])"
    by (rule reachable.mined [OF reachable.mined [OF reachable.constructed
          [OF rounding_constructed] rounding_mined1] rounding_mined2])
  moreover have "addTransaction H sampleVerify (?L []) (bobToAlice 19)
      = (Inr True, ?L [bobToAlice 19])"
    by (simp add: addTransaction_def bobToAlice_valid rounding_balances bobToAlice_fields)
  ultimately have "reachable H sampleVerify (?L [bobToAlice 19])"
    by (rule reachable.added)
  moreover have "addTransaction H sampleVerify (?L [bobToAlice 19]) (aliceToBob 9007199254740992)
      = (Inr True, ?L [bobToAlice 19, aliceToBob 9007199254740992])"
    by (simp add: addTransaction_def aliceToBob_valid_any rounding_balances aliceToBob_fields)
  ultimately have "reachable H sampleVerify (?L [bobToAlice 19, aliceToBob 9007199254740992])"
    by (rule reachable.added)
  moreover have "addTransaction H sampleVerify (?L [bobToAlice 19, aliceToBob 9007199254740992])
        (bobToAlice 21)
      = (Inr True, ?L roundingPool)"
    by (simp add: addTransaction_def bobToAlice_valid rounding_balances roundingPool_def
          bobToAlice_fields)
  ultimately have "reachable H sampleVerify (?L roundingPool)"
    by (rule reachable.added)
  then show ?thesis
    by (rule reachable.mined [OF _ rounding_mined3])
qed

lemma roundingLedger_confirmed:
  "concat (map transactions (chain (roundingLedger H)))
     = [rewardTo ''alice'' 11, rewardTo ''bob'' 13,
        bobToAlice 19, aliceToBob 9007199254740992, bobToAlice 21, rewardTo ''carol'' 41]"
  by (simp add: roundingLedger_def roundingPool_def)

lemma roundingLedger_balance: "getBalanceOfAddress (roundingLedger H) ''alice'' = 1"
  by (simp add: getBalanceOfAddress_def roundingLedger_def roundingPool_def balance_tx_def
        rewardTo_def bobToAlice_def aliceToBob_def Number_add_def Number_sub_def
        roundToDouble_two_53 roundToDouble_two_53_plus_1 roundToDouble_exact)

text \<open>
  C7 does not hold as the specification states it. The ledger above is reached through
  the public interface at every digest; alice receives \<open>2 ^ 53\<close>, 1 and 1 in its chain
  and sends \<open>2 ^ 53\<close>, and her balance is 1: the first coin received on top of \<open>2 ^ 53\<close>
  is lost in rounding. The sum of what she receives minus the sum of what she sends is
  2 in exact arithmetic, and 0 when each sum is computed on doubles.
\<close>

theorem balance_rounding_counterexample:
  "\<forall>H. reachable H sampleVerify (roundingLedger H)
      \<and> map amount (filter (\<lambda>tx. recipient tx = ''alice'')
            (concat (map transactions (chain (roundingLedger H)))))
          = [9007199254740992, 1, 1]
      \<and> map amount (filter (\<lambda>tx. sender tx = ''alice'')
            (concat (map transactions (chain (roundingLedger H)))))
          = [9007199254740992]
      \<and> getBalanceOfAddress (roundingLedger H) ''alice'' = 1
      \<and> sum_list (map amount (filter (\<lambda>tx. recipient tx = ''alice'')
            (concat (map transactions (chain (roundingLedger H))))))
          - sum_list (map amount (filter (\<lambda>tx. sender tx = ''alice'')
              (concat (map transactions (chain (roundingLedger H)))))) = 2
      \<and> Number_sub
          (Number_sum (map amount (filter (\<lambda>tx. recipient tx = ''alice'')
             (concat (map transactions (chain (roundingLedger H)))))))
          (Number_sum (map amount (filter (\<lambda>tx. sender tx = ''alice'')
             (concat (map transactions (chain (roundingLedger H))))))) = 0"
proof (intro allI conjI)
  fix H
  show "reachable H sampleVerify (roundingLedger H)" by (rule roundingLedger_reachable)
  show r: "map amount (filter (\<lambda>tx. recipient tx = ''alice'')
            (concat (map transactions (chain (roundingLedger H)))))
          = [9007199254740992, 1, 1]"
    by (simp add: roundingLedger_confirmed rewardTo_def bobToAlice_def aliceToBob_def)
  show s: "map amount (filter (\<lambda>tx. sender tx = ''alice'')
            (concat (map transactions (chain (roundingLedger H)))))
          = [9007199254740992]"
    by (simp add: roundingLedger_confirmed rewardTo_def bobToAlice_def aliceToBob_def)
  show "getBalanceOfAddress (roundingLedger H) ''alice'' = 1" by (rule roundingLedger_balance)
  show "sum_list (map amount (filter (\<lambda>tx. recipient tx = ''alice'')
            (concat (map transactions (chain (roundingLedger H))))))
          - sum_list (map amount (filter (\<lambda>tx. sender tx = ''alice'')
              (concat (map transactions (chain (roundingLedger H)))))) = 2"
    unfolding r s by simp
  show "Number_sub
          (Number_sum (map amount (filter (\<lambda>tx. recipient tx = ''alice'')
             (concat (map transactions (chain (roundingLedger H)))))))
          (Number_sum (map amount (filter (\<lambda>tx. sender tx = ''alice'')
             (concat (map transactions (chain (roundingLedger H))))))) = 0"
    unfolding r s
    by (simp add: Number_sum_def Number_add_def Number_sub_def roundToDouble_two_53
          roundToDouble_two_53_plus_1 roundToDouble_exact)
qed

section \<open>Runs of the loader\<close>

lemma storedBlock_toJSON: "storedBlock (Block_toJSON Transaction_toJSON b) = Some (jsonBlock b)"
  by (simp add: storedBlock_def Block_toJSON_def jsonBlock_def)

lemma jsonBlock_digest:
  "Block_calculateHash H id (jsonBlock b) = Block_calculateHash H Transaction_toJSON b"
  by (simp add: Block_calculateHash_def jsonBlock_def)

lemma jsonBlock_hash: "hash (jsonBlock b) = hash b"
  by (simp add: jsonBlock_def)

lemma freshGenesis_hash:
  "hash (freshGenesis H) = Block_calculateHash H Transaction_toJSON (freshGenesis H)"
  by (simp add: freshGenesis_def)

lemma easy_constructed_json:
  "Blockchain_new H id 0 100 7
     = Some (Inr \<lparr>chain = [Block_new H id 0 7 [] ''0'' 0], pendingTransactions = [],
                  difficulty = 0, miningReward = 100\<rparr>)"
  by (simp add: Blockchain_new_def createGenesisBlock_def mine_zero_difficulty Block_new_rehash)

text \<open>
  C8 as the specification words it fails: a serialized ledger whose pending transactions
  are the number 42 and an object with a numeric \<open>sender\<close> and no other field is loaded
  without error, for every digest.
\<close>

theorem unchecked_pending_counterexample:
  "\<forall>H. Blockchain_fromJSON H
          (JObj [(''chain'', JArr [Block_toJSON Transaction_toJSON (freshGenesis H)]),
                 (''pendingTransactions'', JArr [JNum 42, JObj [(''sender'', JNum 5)]]),
                 (''difficulty'', JNum 0),
                 (''miningReward'', JNum 100)]) 7
        = Some (Inr \<lparr>chain = [jsonBlock (freshGenesis H)],
                     pendingTransactions = [JNum 42, JObj [(''sender'', JNum 5)]],
                     difficulty = 0, miningReward = 100\<rparr>)"
proof
  fix H
  let ?j = "JObj [(''chain'', JArr [Block_toJSON Transaction_toJSON (freshGenesis H)]),
                 (''pendingTransactions'', JArr [JNum 42, JObj [(''sender'', JNum 5)]]),
                 (''difficulty'', JNum 0),
                 (''miningReward'', JNum 100)]"
  have "isObject ?j"
    "asArray (getProp ?j ''chain'') = Some [Block_toJSON Transaction_toJSON (freshGenesis H)]"
    "asArray (getProp ?j ''pendingTransactions'') = Some [JNum 42, JObj [(''sender'', JNum 5)]]"
    "asNumber (getProp ?j ''difficulty'') = Some 0"
    "asNumber (getProp ?j ''miningReward'') = Some 100"
    by simp_all
  from Blockchain_fromJSON_shaped [OF this easy_constructed_json]
  show "Blockchain_fromJSON H ?j 7
        = Some (Inr \<lparr>chain = [jsonBlock (freshGenesis H)],
                     pendingTransactions = [JNum 42, JObj [(''sender'', JNum 5)]],
                     difficulty = 0, miningReward = 100\<rparr>)"
    by (simp add: storedBlock_toJSON jsonBlock_digest jsonBlock_hash freshGenesis_hash)
qed

lemma sample_reload3:
  "Blockchain_fromJSON sampleHash (Blockchain_toJSON Transaction_toJSON sampleLedger3) 7
     = Some (Inr (jsonLedger sampleLedger3))"
  by code_simp

lemma sample_reload_tampered3:
  "Blockchain_fromJSON sampleHash (Blockchain_toJSON Transaction_toJSON sampleTampered3) 7
     = Some (Inl InvalidBlockError)"
  by code_simp

lemma sample_tampered3_digest:
  "Block_calculateHash sampleHash Transaction_toJSON
     (tamper (SetTransactions rewardAlice1000) (chain sampleLedger3 ! 1))
    \<noteq> Block_calculateHash sampleHash Transaction_toJSON (chain sampleLedger3 ! 1)"
  by code_simp

lemma sample_tampered3_differs:
  "tamper (SetTransactions rewardAlice1000) (chain sampleLedger3 ! 1) \<noteq> chain sampleLedger3 ! 1"
  by code_simp

lemma sample_constructed_json:
  "Blockchain_new sampleHash id 2 100 7
     = Some (Inr \<lparr>chain = [\<lparr>index = 0, timestamp = 7, transactions = [], previousHash = ''0'',
                             nonce = 2, hash = ''006''\<rparr>],
                  pendingTransactions = [], difficulty = 2, miningReward = 100\<rparr>)"
  by code_simp

lemma Blockchain_toJSON_props:
  "isObject (Blockchain_toJSON toJ bc)"
  "asArray (getProp (Blockchain_toJSON toJ bc) ''chain'') = Some (map (Block_toJSON toJ) (chain bc))"
  "asArray (getProp (Blockchain_toJSON toJ bc) ''pendingTransactions'')
     = Some (map toJ (pendingTransactions bc))"
  "asNumber (getProp (Blockchain_toJSON toJ bc) ''difficulty'') = Some (difficulty bc)"
  "asNumber (getProp (Blockchain_toJSON toJ bc) ''miningReward'') = Some (miningReward bc)"
  by (simp_all add: Blockchain_toJSON_def)

theorem fromJSON_validates_witness:
  "Blockchain_fromJSON sampleHash (Blockchain_toJSON Transaction_toJSON sampleLedger3) 7
     = Some (Inr (jsonLedger sampleLedger3))
   \<and> asNumber (getProp (Blockchain_toJSON Transaction_toJSON sampleLedger3) ''difficulty'')
       = Some (difficulty (jsonLedger sampleLedger3))
   \<and> Blockchain_fromJSON sampleHash JNull 7 = Some (Inl Error)
   \<and> Blockchain_fromJSON sampleHash (Blockchain_toJSON Transaction_toJSON sampleTampered3) 7
       = Some (Inl InvalidBlockError)"
proof -
  note t1 = fromJSON_validates [where H = sampleHash and now = 7
      and j = "Blockchain_toJSON Transaction_toJSON sampleLedger3"
      and bc = "jsonLedger sampleLedger3", THEN conjunct1, THEN mp, OF sample_reload3]
  note t2 = fromJSON_validates [where H = sampleHash and now = 7 and j = JNull,
      THEN conjunct2, THEN conjunct1, THEN mp]
  note t3 = fromJSON_validates [where H = sampleHash and now = 7
      and j = "Blockchain_toJSON Transaction_toJSON sampleTampered3"
      and cs = "map (Block_toJSON Transaction_toJSON) (chain sampleTampered3)"
      and ps = "map Transaction_toJSON (pendingTransactions sampleTampered3)"
      and d = "difficulty sampleTampered3" and r = "miningReward sampleTampered3",
      THEN conjunct2, THEN conjunct2, THEN mp]
  have d: "difficulty sampleTampered3 = 2" "miningReward sampleTampered3 = 100"
    by (simp_all add: sampleTampered3_def sampleLedger3_def)
  have "isObject (Blockchain_toJSON Transaction_toJSON sampleTampered3)
      \<and> asArray (getProp (Blockchain_toJSON Transaction_toJSON sampleTampered3) ''chain'')
          = Some (map (Block_toJSON Transaction_toJSON) (chain sampleTampered3))
      \<and> asArray (getProp (Blockchain_toJSON Transaction_toJSON sampleTampered3) ''pendingTransactions'')
          = Some (map Transaction_toJSON (pendingTransactions sampleTampered3))
      \<and> asNumber (getProp (Blockchain_toJSON Transaction_toJSON sampleTampered3) ''difficulty'')
          = Some (difficulty sampleTampered3)
      \<and> asNumber (getProp (Blockchain_toJSON Transaction_toJSON sampleTampered3) ''miningReward'')
          = Some (miningReward sampleTampered3)
      \<and> Blockchain_new sampleHash id (difficulty sampleTampered3) (miningReward sampleTampered3) 7
          = Some (Inr \<lparr>chain = [\<lparr>index = 0, timestamp = 7, transactions = [],
                                  previousHash = ''0'', nonce = 2, hash = ''006''\<rparr>],
                  pendingTransactions = [], difficulty = 2, miningReward = 100\<rparr>)"
    by (simp add: Blockchain_toJSON_props d sample_constructed_json)
  note r3 = t3 [OF this]
  from t1 have a: "asNumber (getProp (Blockchain_toJSON Transaction_toJSON sampleLedger3) ''difficulty'')
       = Some (difficulty (jsonLedger sampleLedger3))" by blast
  have b: "Blockchain_fromJSON sampleHash JNull 7 = Some (Inl Error)"
    by (rule t2) simp
  from r3 sample_reload_tampered3
  have c: "Blockchain_fromJSON sampleHash (Blockchain_toJSON Transaction_toJSON sampleTampered3) 7
       = Some (Inl InvalidBlockError)" by simp
  from sample_reload3 a b c show ?thesis by blast
qed

section \<open>Runs of the validator\<close>

lemma sampleLedger3_valid:
  "isChainValid sampleHash Transaction_toJSON sampleLedger3 = Inr True"
  by code_simp

theorem tamper_detected_witness:
  "isChainValid sampleHash Transaction_toJSON sampleLedger3 = Inr True
   \<and> isChainValid sampleHash Transaction_toJSON sampleTampered3 = Inr False
   \<and> Blockchain_fromJSON sampleHash (Blockchain_toJSON Transaction_toJSON sampleTampered3) 7
       = Some (Inl InvalidBlockError)"
proof -
  let ?f = "SetTransactions rewardAlice1000 :: Transaction field_change"
  let ?b' = "tamper ?f (chain sampleLedger3 ! 1)"
  note t1 = tamper_detected [where bc = sampleLedger3 and H = sampleHash
      and toJ = Transaction_toJSON and k = 1 and f = ?f, THEN conjunct1, THEN mp]
  have "ledger_invariant sampleLedger3
      \<and> (\<forall>i \<in> {1 ..< length (chain sampleLedger3)}.
            hash (chain sampleLedger3 ! i)
              = Block_calculateHash sampleHash Transaction_toJSON (chain sampleLedger3 ! i))
      \<and> 0 \<le> difficulty sampleLedger3
      \<and> 1 + 1 < length (chain sampleLedger3)
      \<and> ?b' \<noteq> chain sampleLedger3 ! 1
      \<and> (isHashChange ?f
           \<or> (1 \<le> (1::nat) \<and> Block_calculateHash sampleHash Transaction_toJSON ?b'
                          \<noteq> Block_calculateHash sampleHash Transaction_toJSON
                               (chain sampleLedger3 ! 1)))"
    using sampleLedger3_invariant sampleLedger3_wf sample_tampered3_differs
      sample_tampered3_digest
    by (simp add: sampleLedger3_def)
  from t1 [OF this]
  have a: "isChainValid sampleHash Transaction_toJSON sampleTampered3 = Inr False"
    by (simp add: sampleTampered3_def)
  note t2 = tamper_detected [where H' = sampleHash and now = 7
      and j = "Blockchain_toJSON Transaction_toJSON sampleTampered3"
      and cs = "map (Block_toJSON Transaction_toJSON) (chain sampleTampered3)"
      and ps = "map Transaction_toJSON (pendingTransactions sampleTampered3)"
      and d = "difficulty sampleTampered3" and r = "miningReward sampleTampered3"
      and m = 1 and sb = "jsonBlock ?b'",
      THEN conjunct2, THEN mp]
  have d: "difficulty sampleTampered3 = 2" "miningReward sampleTampered3 = 100"
    "length (chain sampleTampered3) = 3" "chain sampleTampered3 ! Suc 0 = ?b'"
    by (simp_all add: sampleTampered3_def sampleLedger3_def)
  have h: "hash (chain sampleLedger3 ! 1)
      = Block_calculateHash sampleHash Transaction_toJSON (chain sampleLedger3 ! 1)"
  proof -
    have "1 \<in> {1 ..< length (chain sampleLedger3)}" by (simp add: sampleLedger3_def)
    from bspec [OF sampleLedger3_wf this] show ?thesis .
  qed
  have "hash (jsonBlock ?b') \<noteq> Block_calculateHash sampleHash id (jsonBlock ?b')"
    using sample_tampered3_digest h
    by (simp add: jsonBlock_hash jsonBlock_digest tamper_hash)
  then have "isObject (Blockchain_toJSON Transaction_toJSON sampleTampered3)
      \<and> asArray (getProp (Blockchain_toJSON Transaction_toJSON sampleTampered3) ''chain'')
          = Some (map (Block_toJSON Transaction_toJSON) (chain sampleTampered3))
      \<and> asArray (getProp (Blockchain_toJSON Transaction_toJSON sampleTampered3) ''pendingTransactions'')
          = Some (map Transaction_toJSON (pendingTransactions sampleTampered3))
      \<and> asNumber (getProp (Blockchain_toJSON Transaction_toJSON sampleTampered3) ''difficulty'')
          = Some (difficulty sampleTampered3)
      \<and> asNumber (getProp (Blockchain_toJSON Transaction_toJSON sampleTampered3) ''miningReward'')
          = Some (miningReward sampleTampered3)
      \<and> Blockchain_new sampleHash id (difficulty sampleTampered3) (miningReward sampleTampered3) 7
          = Some (Inr \<lparr>chain = [\<lparr>index = 0, timestamp = 7, transactions = [],
                                  previousHash = ''0'', nonce = 2, hash = ''006''\<rparr>],
                  pendingTransactions = [], difficulty = 2, miningReward = 100\<rparr>)
      \<and> 1 < length (map (Block_toJSON Transaction_toJSON) (chain sampleTampered3))
      \<and> storedBlock (map (Block_toJSON Transaction_toJSON) (chain sampleTampered3) ! 1)
          = Some (jsonBlock ?b')
      \<and> hash (jsonBlock ?b') \<noteq> Block_calculateHash sampleHash id (jsonBlock ?b')"
    by (simp add: Blockchain_toJSON_props d sample_constructed_json storedBlock_toJSON)
  note b = t2 [OF this]
  from sampleLedger3_valid a b show ?thesis by blast
qed

text \<open>
  C2 as the specification words it fails, for every digest \<open>H\<close>, on the ledger built at
  difficulty 0 and mined once. Changing the time stamp of the genesis block in memory
  leaves \<^verbatim>\<open>isChainValid\<close> true: the loop starts at index 1 and reads of block 0 only its
  hash. Changing the stored hash of the genesis block at rest makes the reload throw
  \<^verbatim>\<open>InvalidBlockError\<close>: \<^verbatim>\<open>isChainValid\<close> does not return false, it is never reached.
\<close>

theorem tamper_undetected_counterexample:
  "\<forall>H. (\<forall>V. reachable H V (easyLedger H))
      \<and> ledger_invariant (easyLedger H)
      \<and> isChainValid H Transaction_toJSON (easyLedger H) = Inr True
      \<and> tamper (SetTimestamp 6) (chain (easyLedger H) ! 0) \<noteq> chain (easyLedger H) ! 0
      \<and> isChainValid H Transaction_toJSON
           ((easyLedger H)\<lparr>chain := (chain (easyLedger H))
              [0 := tamper (SetTimestamp 6) (chain (easyLedger H) ! 0)]\<rparr>) = Inr True
      \<and> tamper (SetHash (hash (freshGenesis H) @ ''0'')) (chain (easyLedger H) ! 0)
           \<noteq> chain (easyLedger H) ! 0
      \<and> Blockchain_fromJSON H
           (Blockchain_toJSON Transaction_toJSON
              ((easyLedger H)\<lparr>chain := (chain (easyLedger H))
                 [0 := tamper (SetHash (hash (freshGenesis H) @ ''0''))
                         (chain (easyLedger H) ! 0)]\<rparr>)) 7
          = Some (Inl InvalidBlockError)"
proof (intro allI conjI)
  fix H V
  show "reachable H V (easyLedger H)" by (rule easyLedger_reachable)
next
  fix H
  show "ledger_invariant (easyLedger H)" by (rule easyLedger_invariant)
  show "isChainValid H Transaction_toJSON (easyLedger H) = Inr True" by (rule easyLedger_valid)
  have g0: "chain (easyLedger H) ! 0 = freshGenesis H"
    by (simp add: easyLedger_def)
  have "timestamp (freshGenesis H) = 5" by (simp add: freshGenesis_def)
  then have "timestamp (tamper (SetTimestamp 6) (freshGenesis H)) \<noteq> timestamp (freshGenesis H)"
    by simp
  then show "tamper (SetTimestamp 6) (chain (easyLedger H) ! 0) \<noteq> chain (easyLedger H) ! 0"
    unfolding g0 by metis
  show "isChainValid H Transaction_toJSON
           ((easyLedger H)\<lparr>chain := (chain (easyLedger H))
              [0 := tamper (SetTimestamp 6) (chain (easyLedger H) ! 0)]\<rparr>) = Inr True"
  proof -
    have "isChainValid H Transaction_toJSON
           ((easyLedger H)\<lparr>chain := (chain (easyLedger H))
              [0 := tamper (SetTimestamp 6) (chain (easyLedger H) ! 0)]\<rparr>)
          = isChainValid H Transaction_toJSON (easyLedger H)"
      by (rule genesis_fields_not_validated) simp
    then show ?thesis by (simp only: easyLedger_valid)
  qed
  let ?g' = "tamper (SetHash (hash (freshGenesis H) @ ''0'')) (freshGenesis H)"
  have "hash ?g' \<noteq> hash (freshGenesis H)" by simp
  then show "tamper (SetHash (hash (freshGenesis H) @ ''0'')) (chain (easyLedger H) ! 0)
           \<noteq> chain (easyLedger H) ! 0"
    unfolding g0 by metis
  let ?bc' = "(easyLedger H)\<lparr>chain := (chain (easyLedger H))[0 := ?g']\<rparr>"
  have c: "chain ?bc' ! 0 = ?g'" "0 < length (chain ?bc')"
    "difficulty ?bc' = 0" "miningReward ?bc' = 100"
    by (simp_all add: easyLedger_def)
  have bad: "hash (jsonBlock ?g') \<noteq> Block_calculateHash H id (jsonBlock ?g')"
    by (simp add: jsonBlock_hash jsonBlock_digest freshGenesis_hash [symmetric])
  have "Blockchain_fromJSON H (Blockchain_toJSON Transaction_toJSON ?bc') 7
          = Some (Inl InvalidBlockError)"
  proof (rule reload_rejects_bad_block [where m = 0 and sb = "jsonBlock ?g'"
        and cs = "map (Block_toJSON Transaction_toJSON) (chain ?bc')"])
    show "isObject (Blockchain_toJSON Transaction_toJSON ?bc')"
      by (rule Blockchain_toJSON_props)
    show "asArray (getProp (Blockchain_toJSON Transaction_toJSON ?bc') ''chain'')
        = Some (map (Block_toJSON Transaction_toJSON) (chain ?bc'))"
      by (rule Blockchain_toJSON_props)
    show "asArray (getProp (Blockchain_toJSON Transaction_toJSON ?bc') ''pendingTransactions'')
        = Some (map Transaction_toJSON (pendingTransactions ?bc'))"
      by (rule Blockchain_toJSON_props)
    show "asNumber (getProp (Blockchain_toJSON Transaction_toJSON ?bc') ''difficulty'') = Some 0"
      using c(3) by (simp only: Blockchain_toJSON_props)
    show "asNumber (getProp (Blockchain_toJSON Transaction_toJSON ?bc') ''miningReward'') = Some 100"
      using c(4) by (simp only: Blockchain_toJSON_props)
    show "Blockchain_new H id 0 100 7
        = Some (Inr \<lparr>chain = [Block_new H id 0 7 [] ''0'' 0], pendingTransactions = [],
                  difficulty = 0, miningReward = 100\<rparr>)"
      by (rule easy_constructed_json)
    show "0 < length (map (Block_toJSON Transaction_toJSON) (chain ?bc'))"
      using c(2) by simp
    show "storedBlock (map (Block_toJSON Transaction_toJSON) (chain ?bc') ! 0)
        = Some (jsonBlock ?g')"
      using c(1,2) by (simp add: storedBlock_toJSON del: length_list_update nth_list_update_eq)
    show "hash (jsonBlock ?g') \<noteq> Block_calculateHash H id (jsonBlock ?g')" by (rule bad)
  qed
  then show "Blockchain_fromJSON H
           (Blockchain_toJSON Transaction_toJSON
              ((easyLedger H)\<lparr>chain := (chain (easyLedger H))
                 [0 := tamper (SetHash (hash (freshGenesis H) @ ''0''))
                         (chain (easyLedger H) ! 0)]\<rparr>)) 7
          = Some (Inl InvalidBlockError)"
    unfolding g0 .
qed

end
